theory Spec2Isabelle
  imports Complex_Main "HOL-Library.Word"
begin

unbundle bit_operations_syntax

section \<open>Bytes and machine words\<close>

type_synonym byte = "8 word"
type_synonym lane = "64 word"

text \<open>
  Go's \<^verbatim>\<open>copy(dst, src)\<close> overwrites the first \<open>min (len dst) (len src)\<close> bytes of
  \<open>dst\<close> and leaves its length alone.
\<close>

definition copy_bytes :: "byte list \<Rightarrow> byte list \<Rightarrow> byte list" where
  "copy_bytes dst src = take (length dst) src @ drop (length src) dst"

text \<open>\<^verbatim>\<open>binary.LittleEndian.PutUint64\<close>: the eight bytes of a 64-bit value, lowest first.\<close>

definition PutUint64 :: "lane \<Rightarrow> byte list" where
  "PutUint64 v = map (\<lambda>i. ucast (drop_bit (8 * i) v)) [0..<8]"

section \<open>Keccak\<close>

text \<open>
  Modelled from the spec: \<^verbatim>\<open>crypto.Keccak512\<close> and \<^verbatim>\<open>crypto.Keccak256\<close> belong to the
  repository's \<^verbatim>\<open>crypto\<close> package, which is not among the sources at hand. The spec
  calls them the keccak hash with a 64-byte and a 32-byte output; they are modelled as the
  Keccak sponge over the 1600-bit permutation with the original padding byte \<open>0x01\<close>,
  rates 72 and 136. The state is a list of 25 lanes, lane \<open>x + 5 * y\<close> at index
  \<open>x + 5 * y\<close>.
\<close>

definition rotl64 :: "lane \<Rightarrow> nat \<Rightarrow> lane" where
  "rotl64 x n = push_bit n x OR drop_bit (64 - n) x"

definition round_constants :: "lane list" where
  "round_constants =
   [0x0000000000000001, 0x0000000000008082, 0x800000000000808A, 0x8000000080008000,
    0x000000000000808B, 0x0000000080000001, 0x8000000080008081, 0x8000000000008009,
    0x000000000000008A, 0x0000000000000088, 0x0000000080008009, 0x000000008000000A,
    0x000000008000808B, 0x800000000000008B, 0x8000000000008089, 0x8000000000008003,
    0x8000000000008002, 0x8000000000000080, 0x000000000000800A, 0x800000008000000A,
    0x8000000080008081, 0x8000000000008080, 0x0000000080000001, 0x8000000080008008]"

text \<open>Lane \<open>i\<close> after the rho and pi steps is lane \<open>fst\<close> before them, rotated by \<open>snd\<close>.\<close>

definition rho_pi_table :: "(nat \<times> nat) list" where
  "rho_pi_table =
   [(0, 0), (6, 44), (12, 43), (18, 21), (24, 14),
    (3, 28), (9, 20), (10, 3), (16, 45), (22, 61),
    (1, 1), (7, 6), (13, 25), (19, 8), (20, 18),
    (4, 27), (5, 36), (11, 10), (17, 15), (23, 56),
    (2, 62), (8, 55), (14, 39), (15, 41), (21, 2)]"

definition theta :: "lane list \<Rightarrow> lane list" where
  "theta a =
    (let c = map (\<lambda>x. a ! x XOR a ! (x + 5) XOR a ! (x + 10) XOR a ! (x + 15) XOR a ! (x + 20))
               [0..<5];
         d = map (\<lambda>x. c ! ((x + 4) mod 5) XOR rotl64 (c ! ((x + 1) mod 5)) 1) [0..<5]
     in map (\<lambda>i. a ! i XOR d ! (i mod 5)) [0..<25])"

definition rho_pi :: "lane list \<Rightarrow> lane list" where
  "rho_pi a = map (\<lambda>(s, r). rotl64 (a ! s) r) rho_pi_table"

definition chi :: "lane list \<Rightarrow> lane list" where
  "chi b = map (\<lambda>i. b ! i XOR (NOT (b ! ((i mod 5 + 1) mod 5 + 5 * (i div 5)))
                              AND b ! ((i mod 5 + 2) mod 5 + 5 * (i div 5)))) [0..<25]"

definition iota :: "lane \<Rightarrow> lane list \<Rightarrow> lane list" where
  "iota rc a = (a ! 0 XOR rc) # tl a"

definition keccak_round :: "lane list \<Rightarrow> lane \<Rightarrow> lane list" where
  "keccak_round a rc = iota rc (chi (rho_pi (theta a)))"

definition keccak_f :: "lane list \<Rightarrow> lane list" where
  "keccak_f a = foldl keccak_round a round_constants"

definition lane_of_bytes :: "byte list \<Rightarrow> lane" where
  "lane_of_bytes bs = foldr (\<lambda>b acc. ucast b OR push_bit 8 acc) bs 0"

fun chunks :: "nat \<Rightarrow> 'a list \<Rightarrow> 'a list list" where
  "chunks n [] = []"
| "chunks n (x # xs) =
     (if n = 0 then [x # xs] else take n (x # xs) # chunks n (drop n (x # xs)))"

definition keccak_pad :: "nat \<Rightarrow> byte list \<Rightarrow> byte list" where
  "keccak_pad rate m =
     (let q = rate - length m mod rate
      in if q = 1 then m @ [0x81] else m @ [0x01] @ replicate (q - 2) 0 @ [0x80])"

definition absorb :: "lane list \<Rightarrow> byte list \<Rightarrow> lane list" where
  "absorb st blk =
     (let ls = map lane_of_bytes (chunks 8 blk)
      in keccak_f (map (\<lambda>i. if i < length ls then st ! i XOR ls ! i else st ! i) [0..<25]))"

definition keccak :: "nat \<Rightarrow> nat \<Rightarrow> byte list \<Rightarrow> byte list" where
  "keccak rate outlen m =
     take outlen (concat (map PutUint64
       (foldl absorb (replicate 25 0) (chunks rate (keccak_pad rate m)))))"

definition Keccak512 :: "byte list \<Rightarrow> byte list" where
  "Keccak512 = keccak 72 64"

definition Keccak256 :: "byte list \<Rightarrow> byte list" where
  "Keccak256 = keccak 136 32"

section \<open>The hashing function of the engine\<close>

text \<open>The constants of the algorithm file.\<close>

definition datasetInitBytes :: nat where "datasetInitBytes = 2 ^ 30"
definition datasetGrowthBytes :: nat where "datasetGrowthBytes = 2 ^ 23"
definition cacheInitBytes :: nat where "cacheInitBytes = 2 ^ 24"
definition cacheGrowthBytes :: nat where "cacheGrowthBytes = 2 ^ 17"
definition epochLength :: nat where "epochLength = 30000"
definition mixBytes :: nat where "mixBytes = 128"
definition hashBytes :: nat where "hashBytes = 64"
definition hashWords :: nat where "hashWords = 16"
definition datasetParents :: nat where "datasetParents = 256"
definition cacheRounds :: nat where "cacheRounds = 3"
definition loopAccesses :: nat where "loopAccesses = 64"

text \<open>
  \<^verbatim>\<open>frankomoto(hash, nonce)\<close>: a 40-byte buffer receives the hash (as much of it as
  fits) and then the nonce, little-endian, at offset 32; the buffer is hashed to 64 bytes;
  the function returns the upper half of that hash and the 32-byte hash of all of it.
\<close>

definition frankomoto :: "byte list \<Rightarrow> lane \<Rightarrow> byte list \<times> byte list" where
  "frankomoto hash nonce =
     (let digest = replicate 40 0;
          digest = copy_bytes digest hash;
          digest = take 32 digest @ PutUint64 nonce @ drop 40 digest;
          digest = Keccak512 digest;
          d1 = drop 32 digest
      in (d1, Keccak256 digest))"

section \<open>The engine\<close>

datatype Mode = ModeNormal | ModeShared | ModeTest | ModeFake | ModeFullFake

text \<open>The logger of the configuration is left out: logging is no part of any result.\<close>

record Config =
  PowMode :: Mode
  NotifyFull :: bool
  XIP5Block :: "lane option"

text \<open>The errors the engine returns, and the ways a call can fail to return normally.\<close>

datatype error = ErrInvalidDumpMagic | errNoMiningWork | errEthashStopped | errInvalidPoW

datatype fault = NilDereference | Deadlock | CloseOfClosedChannel

text \<open>
  The header fields the engine reads. The sealing hash is computed from the header by a
  collaborator outside the engine; it travels with the header here.
\<close>

record Header =
  Number :: int
  Difficulty :: int
  Nonce :: lane
  MixDigest :: "byte list"
  SealHash :: "byte list"

record WorkPackage =
  sealHash :: "byte list"
  seedHash :: "byte list"
  target :: int
  blockNumber :: int

record HashrateEntry =
  minerID :: "byte list"
  rate :: lane
  lastRefreshed :: nat

text \<open>
  Modelled from the spec: the remote sealer (\<^verbatim>\<open>remoteSealer\<close>, \<^verbatim>\<open>startRemoteSealer\<close>)
  and the RPC functions over it are not among the sources at hand. Its state, after the
  spec's Remote Coordinator: the current header of each block number, every header that
  can still be solved (current or superseded) under its sealing hash, the header pushed
  last, the hash rates reported by miners, the notification endpoints, the headers
  delivered to the result sink, how often the loop has been asked to exit (the exit-request
  channel closed), and whether the processing loop has exited. The flag \<open>noverify\<close> that
  the constructor hands over is kept; the spec gives it no meaning.
\<close>

record remoteSealer =
  current :: "int \<rightharpoonup> Header"
  solvable :: "byte list \<rightharpoonup> Header"
  latest :: "Header option"
  rates :: "HashrateEntry list"
  notifyURLs :: "string list"
  noverify :: bool
  results :: "Header list"
  exitRequests :: nat
  exited :: bool

text \<open>
  The notification channel \<^verbatim>\<open>update\<close>: whether a sealing call is waiting to receive on
  it, and how many notifications it has taken so far.
\<close>

datatype chan = Chan (receiver_waiting: bool) (delivered: nat)

text \<open>
  The engine. Engines live in a heap, a list addressed by position, because \<^verbatim>\<open>shared\<close>
  is a pointer to another engine; \<open>None\<close> is the nil pointer, for \<^verbatim>\<open>update\<close> the nil
  channel, for \<^verbatim>\<open>hashrate\<close> the nil meter. The thread count is only stored and read,
  never computed with, so Go's \<^verbatim>\<open>int\<close> is an integer here. Of the meter the engine
  holds only the object; what it reads is an input of \<^verbatim>\<open>Hashrate\<close>. The random
  source is read by none of the functions below and is left out; the mutex is the list of
  engines whose lock the running call holds; \<^verbatim>\<open>closeOnce\<close> is true once its function has
  run.
\<close>

datatype meter = StandardMeter

record Frkhash =
  config :: Config
  threads :: int
  update :: "chan option"
  hashrate :: "meter option"
  remote :: "remoteSealer option"
  shared :: "nat option"
  fakeFail :: lane
  fakeDelay :: int
  closeOnce :: bool

type_synonym heap = "Frkhash list"

definition two256 :: int where
  "two256 = 2 ^ 256"

definition startRemoteSealer :: "string list \<Rightarrow> bool \<Rightarrow> remoteSealer" where
  "startRemoteSealer notify nv =
     \<lparr>current = Map.empty, solvable = Map.empty, latest = None, rates = [],
      notifyURLs = notify, noverify = nv, results = [], exitRequests = 0,
      exited = False\<rparr>"

text \<open>The zero value of a configuration: mode 0 is \<open>ModeNormal\<close>.\<close>

definition zero_Config :: Config where
  "zero_Config = \<lparr>PowMode = ModeNormal, NotifyFull = False, XIP5Block = None\<rparr>"

text \<open>
  The constructors. \<open>sf\<close> is the value of the global \<^verbatim>\<open>sharedFrkhash\<close> when the
  constructor runs.
\<close>

definition New :: "nat option \<Rightarrow> Config \<Rightarrow> string list \<Rightarrow> bool \<Rightarrow> Frkhash" where
  "New sf cfg notify nv =
     \<lparr>config = cfg, threads = 0, update = Some (Chan False 0),
      hashrate = Some StandardMeter,
      remote = Some (startRemoteSealer notify nv),
      shared = (if PowMode cfg = ModeShared then sf else None),
      fakeFail = 0, fakeDelay = 0, closeOnce = False\<rparr>"

definition NewTester :: "nat option \<Rightarrow> string list \<Rightarrow> bool \<Rightarrow> Frkhash" where
  "NewTester sf notify nv = New sf (zero_Config\<lparr>PowMode := ModeTest\<rparr>) notify nv"

definition zero_Frkhash :: Frkhash where
  "zero_Frkhash =
     \<lparr>config = zero_Config, threads = 0, update = None, hashrate = None, remote = None,
      shared = None, fakeFail = 0, fakeDelay = 0, closeOnce = False\<rparr>"


definition NewFakeFailer :: "lane \<Rightarrow> Frkhash" where
  "NewFakeFailer fail =
     zero_Frkhash\<lparr>config := zero_Config\<lparr>PowMode := ModeFake\<rparr>, fakeFail := fail\<rparr>"

definition NewFakeDelayer :: "int \<Rightarrow> Frkhash" where
  "NewFakeDelayer delay =
     zero_Frkhash\<lparr>config := zero_Config\<lparr>PowMode := ModeFake\<rparr>, fakeDelay := delay\<rparr>"

definition NewFullFaker :: Frkhash where
  "NewFullFaker = zero_Frkhash\<lparr>config := zero_Config\<lparr>PowMode := ModeFullFake\<rparr>\<rparr>"

definition NewShared :: "nat option \<Rightarrow> Frkhash" where
  "NewShared sf = zero_Frkhash\<lparr>shared := sf\<rparr>"

text \<open>
  Package initialisation: the shared engine is built in normal mode, while the global is
  still nil, and becomes the first engine of the heap.
\<close>

definition init_heap :: heap where
  "init_heap = [New None (zero_Config\<lparr>PowMode := ModeNormal\<rparr>) [] False]"

definition sharedFrkhash :: "nat option" where
  "sharedFrkhash = Some 0"

definition alloc :: "heap \<Rightarrow> Frkhash \<Rightarrow> heap \<times> nat" where
  "alloc h e = (h @ [e], length h)"

subsection \<open>Close\<close>

text \<open>
  Modelled from the spec: \<open>stop\<close>, in its two steps: the exit request is signalled, which
  the sealer counts, and the processing loop exits.
\<close>

definition request_exit :: "remoteSealer \<Rightarrow> remoteSealer" where
  "request_exit r = r\<lparr>exitRequests := Suc (exitRequests r)\<rparr>"

definition loop_exit :: "remoteSealer \<Rightarrow> remoteSealer" where
  "loop_exit r = r\<lparr>exited := True\<rparr>"

definition stop :: "remoteSealer \<Rightarrow> remoteSealer" where
  "stop r = loop_exit (request_exit r)"

text \<open>
  \<^verbatim>\<open>Close\<close>: the function guarded by \<^verbatim>\<open>closeOnce\<close> runs on the first call only. It
  returns at once without a remote sealer; otherwise it closes the exit-request channel,
  which panics in Go when the channel is closed already, and waits for the loop to exit.
  The result is the returned error (always nil) and the engine afterwards.
\<close>

definition Close :: "Frkhash \<Rightarrow> fault + (error option \<times> Frkhash)" where
  "Close e =
     (if closeOnce e then Inr (None, e)
      else case remote e of
             None \<Rightarrow> Inr (None, e\<lparr>closeOnce := True\<rparr>)
           | Some r \<Rightarrow>
               if exitRequests r \<noteq> 0 then Inl CloseOfClosedChannel
               else Inr (None, e\<lparr>remote := Some (stop r), closeOnce := True\<rparr>))"

text \<open>A run of \<^verbatim>\<open>Close\<close> calls, one after the other: the errors returned, the engine left.\<close>

fun Close_times :: "nat \<Rightarrow> Frkhash \<Rightarrow> fault + (error option list \<times> Frkhash)" where
  "Close_times 0 e = Inr ([], e)"
| "Close_times (Suc k) e =
     (case Close e of
        Inl f \<Rightarrow> Inl f
      | Inr (err, e') \<Rightarrow>
          (case Close_times k e' of
             Inl f \<Rightarrow> Inl f
           | Inr (errs, e'') \<Rightarrow> Inr (err # errs, e'')))"

text \<open>How often the remote sealer of an engine has been torn down.\<close>

definition teardowns :: "Frkhash \<Rightarrow> nat" where
  "teardowns e = (case remote e of None \<Rightarrow> 0 | Some r \<Rightarrow> exitRequests r)"

text \<open>
  What holds of every engine the constructors build and \<^verbatim>\<open>Close\<close> keeps: the remote
  sealer has been asked to exit, once, and has exited exactly when \<^verbatim>\<open>closeOnce\<close> has run.
\<close>

definition engine_inv :: "Frkhash \<Rightarrow> bool" where
  "engine_inv e =
     (case remote e of
        None \<Rightarrow> True
      | Some r \<Rightarrow> exited r = closeOnce e \<and> exitRequests r = (if closeOnce e then 1 else 0))"

subsection \<open>Close called by several callers at a time\<close>

text \<open>
  \<^verbatim>\<open>closeOnce.Do(f)\<close> of Go's \<^verbatim>\<open>sync.Once\<close>: the first caller runs \<open>f\<close>, a caller that arrives
  while \<open>f\<close> runs waits, no caller returns before \<open>f\<close> has, and a panic of \<open>f\<close> counts as its
  return. A caller of \<^verbatim>\<open>Close()\<close> has yet to reach \<^verbatim>\<open>Do\<close> (\<open>Calling\<close>), waits there
  (\<open>Waiting\<close>), runs the function before \<^verbatim>\<open>close(frkhash.remote.requestExit)\<close> (\<open>Running\<close>)
  or is at \<^verbatim>\<open><-frkhash.remote.exitCh\<close> (\<open>Awaiting\<close>), has returned its error, or has
  panicked.
\<close>

datatype caller = Calling | Waiting | Running | Awaiting | Returned "error option" | Panicked fault

text \<open>The engine, the caller that runs the function of \<^verbatim>\<open>closeOnce\<close>, if any, and all callers.\<close>

record closing =
  engine :: Frkhash
  runner :: "nat option"
  callers :: "caller list"

definition closing_init :: "Frkhash \<Rightarrow> nat \<Rightarrow> closing" where
  "closing_init e n = \<lparr>engine = e, runner = None, callers = replicate n Calling\<rparr>"

text \<open>
  One step of one caller, or of the remote sealer's loop (\<open>loop_exits\<close>), which on the
  request to exit closes \<^verbatim>\<open>exitCh\<close>.
\<close>

inductive close_step :: "closing \<Rightarrow> closing \<Rightarrow> bool" where
  enter_first:
    "i < length (callers s) \<Longrightarrow> callers s ! i = Calling \<Longrightarrow>
     \<not> closeOnce (engine s) \<Longrightarrow> runner s = None \<Longrightarrow>
     close_step s (s\<lparr>runner := Some i, callers := (callers s)[i := Running]\<rparr>)"
| enter_wait:
    "i < length (callers s) \<Longrightarrow> callers s ! i = Calling \<Longrightarrow>
     \<not> closeOnce (engine s) \<Longrightarrow> runner s \<noteq> None \<Longrightarrow>
     close_step s (s\<lparr>callers := (callers s)[i := Waiting]\<rparr>)"
| enter_done:
    "i < length (callers s) \<Longrightarrow> callers s ! i = Calling \<or> callers s ! i = Waiting \<Longrightarrow>
     closeOnce (engine s) \<Longrightarrow>
     close_step s (s\<lparr>callers := (callers s)[i := Returned None]\<rparr>)"
| run_nil:
    "i < length (callers s) \<Longrightarrow> callers s ! i = Running \<Longrightarrow>
     remote (engine s) = None \<Longrightarrow>
     close_step s (s\<lparr>engine := (engine s)\<lparr>closeOnce := True\<rparr>,
                      callers := (callers s)[i := Returned None]\<rparr>)"
| run_signal:
    "i < length (callers s) \<Longrightarrow> callers s ! i = Running \<Longrightarrow>
     remote (engine s) = Some r \<Longrightarrow> exitRequests r = 0 \<Longrightarrow>
     close_step s (s\<lparr>engine := (engine s)\<lparr>remote := Some (request_exit r)\<rparr>,
                      callers := (callers s)[i := Awaiting]\<rparr>)"
| run_panic:
    "i < length (callers s) \<Longrightarrow> callers s ! i = Running \<Longrightarrow>
     remote (engine s) = Some r \<Longrightarrow> exitRequests r \<noteq> 0 \<Longrightarrow>
     close_step s (s\<lparr>engine := (engine s)\<lparr>closeOnce := True\<rparr>,
                      callers := (callers s)[i := Panicked CloseOfClosedChannel]\<rparr>)"
| loop_exits:
    "remote (engine s) = Some r \<Longrightarrow> exitRequests r \<noteq> 0 \<Longrightarrow> \<not> exited r \<Longrightarrow>
     close_step s (s\<lparr>engine := (engine s)\<lparr>remote := Some (loop_exit r)\<rparr>\<rparr>)"
| await_done:
    "i < length (callers s) \<Longrightarrow> callers s ! i = Awaiting \<Longrightarrow>
     remote (engine s) = Some r \<Longrightarrow> exited r \<Longrightarrow>
     close_step s (s\<lparr>engine := (engine s)\<lparr>closeOnce := True\<rparr>,
                      callers := (callers s)[i := Returned None]\<rparr>)"

text \<open>What is left to do: the steps each caller has before it, and the exit of the loop.\<close>

fun rank :: "caller \<Rightarrow> nat" where
  "rank Calling = 3"
| "rank Running = 2"
| "rank Awaiting = 1"
| "rank Waiting = 1"
| "rank (Returned err) = 0"
| "rank (Panicked f) = 0"

definition closing_measure :: "closing \<Rightarrow> nat" where
  "closing_measure s =
     sum_list (map rank (callers s))
     + (case remote (engine s) of None \<Rightarrow> 0 | Some r \<Rightarrow> if exited r then 0 else 1)"

text \<open>
  The states that callers of \<^verbatim>\<open>Close()\<close> on the engine \<open>e\<close> reach: \<open>e\<close> was closed before; or
  no caller has entered; or one caller \<open>i\<close> holds \<^verbatim>\<open>closeOnce\<close>, the others being outside or
  waiting, and it has yet to ask the sealer to exit, or has asked, or the sealer has exited;
  or that caller has returned and \<open>e\<close> is closed.
\<close>

definition others :: "caller set \<Rightarrow> nat \<Rightarrow> caller list \<Rightarrow> bool" where
  "others S i cs = (\<forall>j < length cs. j \<noteq> i \<longrightarrow> cs ! j \<in> S)"

definition holder :: "nat \<Rightarrow> Frkhash \<Rightarrow> caller \<Rightarrow> caller set \<Rightarrow> closing \<Rightarrow> bool" where
  "holder i e' c S s =
     (i < length (callers s) \<and> runner s = Some i \<and> engine s = e' \<and> callers s ! i = c
      \<and> others S i (callers s))"

definition closing_inv :: "Frkhash \<Rightarrow> nat \<Rightarrow> closing \<Rightarrow> bool" where
  "closing_inv e n s =
     (length (callers s) = n \<and>
      (if closeOnce e
       then engine s = e \<and> runner s = None \<and> set (callers s) \<subseteq> {Calling, Returned None}
       else (engine s = e \<and> runner s = None \<and> set (callers s) \<subseteq> {Calling})
          \<or> (\<exists>i. holder i e Running {Calling, Waiting} s)
          \<or> (\<exists>i. remote e \<noteq> None
                \<and> holder i (e\<lparr>remote := map_option request_exit (remote e)\<rparr>)
                     Awaiting {Calling, Waiting} s)
          \<or> (\<exists>i. remote e \<noteq> None
                \<and> holder i (e\<lparr>remote := map_option stop (remote e)\<rparr>)
                     Awaiting {Calling, Waiting} s)
          \<or> (\<exists>i. holder i (e\<lparr>remote := map_option stop (remote e), closeOnce := True\<rparr>)
                     (Returned None) {Calling, Waiting, Returned None} s)))"

subsection \<open>Threads and SetThreads\<close>

definition Threads :: "heap \<Rightarrow> nat \<Rightarrow> fault + int" where
  "Threads h a = (if length h \<le> a then Inl NilDereference else Inr (threads (h ! a)))"

text \<open>
  The non-blocking send on \<^verbatim>\<open>update\<close>: taken by a waiting sealing call, dropped
  otherwise (a nil channel is never ready).
\<close>

definition ping :: "Frkhash \<Rightarrow> Frkhash" where
  "ping e =
     (case update e of
        None \<Rightarrow> e
      | Some c \<Rightarrow>
          if receiver_waiting c
          then e\<lparr>update := Some (Chan (receiver_waiting c) (Suc (delivered c)))\<rparr>
          else e)"

text \<open>Whether a sealing call waits on the channel, and how many notifications it took.\<close>

definition listening :: "Frkhash \<Rightarrow> bool" where
  "listening e = (case update e of None \<Rightarrow> False | Some c \<Rightarrow> receiver_waiting c)"

definition notifications :: "Frkhash \<Rightarrow> nat" where
  "notifications e = (case update e of None \<Rightarrow> 0 | Some c \<Rightarrow> delivered c)"

text \<open>
  \<^verbatim>\<open>SetThreads\<close> on the engine at address \<open>a\<close>; \<open>held\<close> are the engines whose lock
  the call holds already. Go's mutex is not reentrant: a chain of \<^verbatim>\<open>shared\<close> pointers
  that comes back to a locked engine never returns.
\<close>

function SetThreads :: "heap \<Rightarrow> nat \<Rightarrow> int \<Rightarrow> nat list \<Rightarrow> fault + heap" where
  "SetThreads h a n held =
     (if length h \<le> a then Inl NilDereference
      else if a \<in> set held then Inl Deadlock
      else case shared (h ! a) of
             Some b \<Rightarrow> SetThreads h b n (a # held)
           | None \<Rightarrow> Inr (h[a := ping ((h ! a)\<lparr>threads := n\<rparr>)]))"
  by pat_completeness auto
termination
proof (relation "measure (\<lambda>(h, a, n, held). card ({..<length h} - set held))")
  show "wf (measure (\<lambda>(h, a, n, held). card ({..<length h} - set held)))"
    by simp
next
  fix h :: heap and a :: nat and n :: int and held :: "nat list" and b :: nat
  assume "\<not> length h \<le> a" and "a \<notin> set held"
  then have mem: "a \<in> {..<length h} - set held"
    by simp
  have "{..<length h} - set (a # held) = ({..<length h} - set held) - {a}"
    by auto
  moreover have "card (({..<length h} - set held) - {a}) < card ({..<length h} - set held)"
    using mem by (intro card_Diff1_less) simp_all
  ultimately have "card ({..<length h} - set (a # held)) < card ({..<length h} - set held)"
    by simp
  then show "((h, b, n, a # held), (h, a, n, held))
               \<in> measure (\<lambda>(h, a, n, held). card ({..<length h} - set held))"
    by simp
qed

declare SetThreads.simps [simp del]

fun SetThreads_all :: "heap \<Rightarrow> nat \<Rightarrow> int list \<Rightarrow> fault + heap" where
  "SetThreads_all h a [] = Inr h"
| "SetThreads_all h a (n # ns) =
     (case SetThreads h a n [] of Inl f \<Rightarrow> Inl f | Inr h' \<Rightarrow> SetThreads_all h' a ns)"

subsection \<open>Verifying a seal\<close>

definition be_int :: "byte list \<Rightarrow> int" where
  "be_int bs = foldl (\<lambda>acc b. acc * 256 + uint b) 0 bs"

text \<open>
  Modelled from the spec: \<^verbatim>\<open>VerifySeal\<close> is not among the sources at hand. Normal, test
  and shared mode recompute digest and result with the hashing function above and compare
  the digest with the header's and the result, a big-endian number, with the target
  \<open>2^256 / difficulty\<close>; fake mode succeeds unless the header's number is the configured
  failing block; full fake mode succeeds. \<open>None\<close> is success. The delay of fake mode is
  time only and is left out.
\<close>

definition VerifySeal :: "Frkhash \<Rightarrow> Header \<Rightarrow> error option" where
  "VerifySeal e hdr =
     (case PowMode (config e) of
        ModeFullFake \<Rightarrow> None
      | ModeFake \<Rightarrow> if Number hdr = uint (fakeFail e) then Some errInvalidPoW else None
      | _ \<Rightarrow>
          (let (digest, result) = frankomoto (SealHash hdr) (Nonce hdr)
           in if digest \<noteq> MixDigest hdr then Some errInvalidPoW
              else if be_int result > two256 div Difficulty hdr then Some errInvalidPoW
              else None))"

subsection \<open>The remote sealer's operations\<close>

text \<open>
  Modelled from the spec: the seed hash chains the hash over 32 zero bytes once per epoch,
  and the epoch of a block is its number divided by \<open>epochLength\<close>.
\<close>

definition SeedHash :: "int \<Rightarrow> byte list" where
  "SeedHash block = (Keccak256 ^^ nat (block div int epochLength)) (replicate 32 0)"

definition package :: "Header \<Rightarrow> WorkPackage" where
  "package hdr =
     \<lparr>sealHash = SealHash hdr, seedHash = SeedHash (Number hdr),
      target = two256 div Difficulty hdr, blockNumber = Number hdr\<rparr>"

text \<open>
  Modelled from the spec: \<open>pushWork\<close> makes the header the current one of its block
  number and the one pushed last; every pushed header stays solvable under its sealing
  hash (the spec names no operation that prunes). Delivery to the notification endpoints
  changes nothing here. A sealer that has exited takes no work.
\<close>

definition pushWork :: "Header \<Rightarrow> remoteSealer \<Rightarrow> remoteSealer" where
  "pushWork hdr r =
     (if exited r then r
      else r\<lparr>current := (current r)(Number hdr \<mapsto> hdr),
              solvable := (solvable r)(SealHash hdr \<mapsto> hdr),
              latest := Some hdr\<rparr>)"

text \<open>
  Modelled from the spec: \<open>currentWork\<close> returns the package pushed last (target and
  block number as numbers, not yet as hexadecimal text).
\<close>

definition currentWork :: "remoteSealer \<Rightarrow> error + WorkPackage" where
  "currentWork r =
     (if exited r then Inl errEthashStopped
      else case latest r of None \<Rightarrow> Inl errNoMiningWork | Some hdr \<Rightarrow> Inr (package hdr))"

text \<open>
  Modelled from the spec: \<open>submitWork(nonce, sealHash, mixDigest)\<close> for the sealer of
  engine \<open>e\<close>: the solvable header under the sealing hash, completed with nonce and
  digest, is verified; on success it is delivered to the result sink and is solvable no
  longer.
\<close>

definition submitWork ::
  "Frkhash \<Rightarrow> lane \<Rightarrow> byte list \<Rightarrow> byte list \<Rightarrow> remoteSealer \<Rightarrow> bool \<times> remoteSealer" where
  "submitWork e nonce sh mix r =
     (if exited r then (False, r)
      else case solvable r sh of
             None \<Rightarrow> (False, r)
           | Some hdr \<Rightarrow>
               (let sealed = hdr\<lparr>Nonce := nonce, MixDigest := mix\<rparr>
                in case VerifySeal e sealed of
                     Some err \<Rightarrow> (False, r)
                   | None \<Rightarrow>
                       (True, r\<lparr>solvable := (solvable r)(sh := None),
                                 results := results r @ [sealed]\<rparr>)))"

text \<open>Modelled from the spec: \<open>submitHashrate\<close> at time \<open>now\<close>.\<close>

definition submitHashrate ::
  "nat \<Rightarrow> byte list \<Rightarrow> lane \<Rightarrow> remoteSealer \<Rightarrow> bool \<times> remoteSealer" where
  "submitHashrate now m rt r =
     (if exited r then (False, r)
      else (True, r\<lparr>rates := filter (\<lambda>en. minerID en \<noteq> m) (rates r)
                         @ [\<lparr>minerID = m, rate = rt, lastRefreshed = now\<rparr>]\<rparr>))"

text \<open>
  Modelled from the spec: \<open>aggregateHashrate\<close> at time \<open>now\<close>, with an expiry window of
  \<open>expiry\<close> (the spec gives no number): stale entries are dropped, the rates of the others
  are added as unsigned 64-bit numbers.
\<close>

definition aggregateHashrate :: "nat \<Rightarrow> nat \<Rightarrow> remoteSealer \<Rightarrow> lane \<times> remoteSealer" where
  "aggregateHashrate expiry now r =
     (let live = filter (\<lambda>en. now - lastRefreshed en \<le> expiry) (rates r)
      in (sum_list (map rate live), r\<lparr>rates := live\<rparr>))"

text \<open>The requests a remote sealer serves, one after the other.\<close>

datatype request =
    PushWork Header
  | CurrentWork
  | SubmitWork lane "byte list" "byte list"
  | SubmitHashrate nat "byte list" lane
  | AggregateHashrate nat nat
  | Stop

fun serve :: "Frkhash \<Rightarrow> remoteSealer \<Rightarrow> request \<Rightarrow> remoteSealer" where
  "serve e r (PushWork hdr) = pushWork hdr r"
| "serve e r CurrentWork = r"
| "serve e r (SubmitWork nonce sh mix) = snd (submitWork e nonce sh mix r)"
| "serve e r (SubmitHashrate now m rt) = snd (submitHashrate now m rt r)"
| "serve e r (AggregateHashrate expiry now) =
     (if exited r then r else snd (aggregateHashrate expiry now r))"
| "serve e r Stop = (if exited r then r else stop r)"

definition serve_all :: "Frkhash \<Rightarrow> remoteSealer \<Rightarrow> request list \<Rightarrow> remoteSealer" where
  "serve_all e r qs = foldl (serve e) r qs"

fun is_PushWork :: "request \<Rightarrow> bool" where
  "is_PushWork (PushWork hdr) = True"
| "is_PushWork q = False"

subsection \<open>Hashrate\<close>

text \<open>
  \<^verbatim>\<open>Hashrate\<close> at time \<open>now\<close>. The 64-bit floating point numbers are values of a type
  \<open>'f\<close> left open: \<open>rate1\<close> is what the meter reads at the call, \<open>fadd\<close> is the
  floating point addition and \<open>conv\<close> the conversion of an unsigned 64-bit integer, so
  that no rounding is decided here. Outside normal and test mode the meter alone is read.
  Otherwise the request goes to the remote sealer, or, when it has exited, the meter alone
  is read. A nil meter or a nil remote sealer is a nil dereference. The result comes with
  the engine after the call, whose sealer has dropped its stale entries.
\<close>

definition Hashrate ::
  "('f \<Rightarrow> 'f \<Rightarrow> 'f) \<Rightarrow> (lane \<Rightarrow> 'f) \<Rightarrow> 'f \<Rightarrow> nat \<Rightarrow> nat \<Rightarrow> Frkhash \<Rightarrow> fault + ('f \<times> Frkhash)" where
  "Hashrate fadd conv rate1 expiry now e =
     (if PowMode (config e) \<noteq> ModeNormal \<and> PowMode (config e) \<noteq> ModeTest
      then (case hashrate e of None \<Rightarrow> Inl NilDereference | Some mt \<Rightarrow> Inr (rate1, e))
      else case remote e of
             None \<Rightarrow> Inl NilDereference
           | Some r \<Rightarrow>
               if exited r
               then (case hashrate e of None \<Rightarrow> Inl NilDereference | Some mt \<Rightarrow> Inr (rate1, e))
               else (let (total, r') = aggregateHashrate expiry now r
                     in case hashrate e of
                          None \<Rightarrow> Inl NilDereference
                        | Some mt \<Rightarrow> Inr (fadd rate1 (conv total), e\<lparr>remote := Some r'\<rparr>)))"

text \<open>
  For running the function on numbers: 64-bit floating point holds every integer of
  magnitude up to \<open>2^53\<close> and adds two of them without rounding when the sum is such an
  integer again. \<open>None\<close> stands for every other value and every other sum.
\<close>

definition exact_conv :: "lane \<Rightarrow> int option" where
  "exact_conv v = (if uint v \<le> 2 ^ 53 then Some (uint v) else None)"

definition exact_add :: "int option \<Rightarrow> int option \<Rightarrow> int option" where
  "exact_add a b =
     (case (a, b) of
        (Some x, Some y) \<Rightarrow>
          if \<bar>x\<bar> \<le> 2 ^ 53 \<and> \<bar>y\<bar> \<le> 2 ^ 53 \<and> \<bar>x + y\<bar> \<le> 2 ^ 53 then Some (x + y) else None
      | _ \<Rightarrow> None)"

subsection \<open>GetWork and SubmitHashrate\<close>




section \<open>The mixing algorithm in the words of the spec\<close>

text \<open>\<^verbatim>\<open>binary.LittleEndian\<close> for 32-bit words.\<close>

definition Uint32 :: "byte list \<Rightarrow> 32 word" where
  "Uint32 bs = foldr (\<lambda>b acc. ucast b OR push_bit 8 acc) (take 4 bs) 0"

definition PutUint32 :: "32 word \<Rightarrow> byte list" where
  "PutUint32 v = map (\<lambda>i. ucast (drop_bit (8 * i) v)) [0..<4]"

text \<open>
  The Hash Mixer as the spec describes it, to be compared with \<open>frankomoto\<close>: the header
  hash and the little-endian nonce are hashed to the 64-byte seed; the seed is tiled into a
  mix buffer of \<open>mixBytes\<close> bytes; \<open>loopAccesses\<close> times a row index is derived from the
  mix and the number of rows, the rows are fetched by \<open>lookup\<close> and combined into the mix
  word by word; the mix is folded to 32 bytes; the digest is the hash of seed and folded
  mix, the result the hash of the seed. The spec leaves the combining function and the
  derivation of the index open; they are taken as in Ethash's hashimoto, whose constants
  the algorithm file keeps.
\<close>

definition fnv :: "32 word \<Rightarrow> 32 word \<Rightarrow> 32 word" where
  "fnv a b = a * 0x01000193 XOR b"

definition spec_seed :: "byte list \<Rightarrow> lane \<Rightarrow> byte list" where
  "spec_seed headerHash nonce = Keccak512 (take 32 headerHash @ PutUint64 nonce)"

definition spec_tile :: "byte list \<Rightarrow> 32 word list" where
  "spec_tile seed = map (\<lambda>i. Uint32 (drop (i mod hashWords * 4) seed)) [0..<mixBytes div 4]"

definition spec_access ::
  "32 word \<Rightarrow> (32 word \<Rightarrow> 32 word list) \<Rightarrow> 32 word \<Rightarrow> 32 word list \<Rightarrow> nat \<Rightarrow> 32 word list" where
  "spec_access rows lookup seedHead mix i =
     (let parent = fnv (word_of_nat i XOR seedHead) (mix ! (i mod length mix)) mod rows;
          temp = concat (map (\<lambda>j. lookup (2 * parent + word_of_nat j))
                   [0..<mixBytes div hashBytes])
      in map2 fnv mix temp)"

definition spec_compress :: "32 word list \<Rightarrow> byte list" where
  "spec_compress mix =
     concat (map (\<lambda>i. PutUint32 (fnv (fnv (fnv (mix ! (4 * i)) (mix ! (4 * i + 1)))
                                         (mix ! (4 * i + 2))) (mix ! (4 * i + 3))))
       [0..<length mix div 4])"

definition spec_mix ::
  "32 word \<Rightarrow> (32 word \<Rightarrow> 32 word list) \<Rightarrow> byte list \<Rightarrow> lane \<Rightarrow> byte list \<times> byte list" where
  "spec_mix rows lookup headerHash nonce =
     (let seed = spec_seed headerHash nonce;
          mix = foldl (spec_access rows lookup (Uint32 seed)) (spec_tile seed) [0..<loopAccesses];
          cmix = spec_compress mix
      in (Keccak256 (seed @ cmix), Keccak256 seed))"

text \<open>A small lookup structure for running the algorithm: row \<open>i\<close> repeats \<open>i\<close>.\<close>

definition index_rows :: "32 word \<Rightarrow> 32 word list" where
  "index_rows i = replicate hashWords i"

section \<open>Engines and inputs of the tests\<close>

text \<open>The engine of the tests, \<^verbatim>\<open>NewTester(nil, false)\<close>.\<close>

definition tester :: Frkhash where
  "tester = NewTester sharedFrkhash [] False"

text \<open>A heap with the shared engine and an engine made by \<^verbatim>\<open>NewShared()\<close>.\<close>

definition shared_heap :: heap where
  "shared_heap = fst (alloc init_heap (NewShared sharedFrkhash))"

text \<open>Three miners report the rates 100, 200 and 300, as in the hash rate test.\<close>

definition miner_a :: "byte list" where "miner_a = replicate 31 0 @ [0x0a]"
definition miner_b :: "byte list" where "miner_b = replicate 31 0 @ [0x0b]"
definition miner_c :: "byte list" where "miner_c = replicate 31 0 @ [0x0c]"

definition three_miners :: remoteSealer where
  "three_miners =
     snd (submitHashrate 0 miner_c 300
       (snd (submitHashrate 0 miner_b 200
         (snd (submitHashrate 0 miner_a 100 (startRemoteSealer [] False))))))"

definition reported_tester :: Frkhash where
  "reported_tester = tester\<lparr>remote := Some three_miners\<rparr>"

definition reported_shared :: Frkhash where
  "reported_shared =
     (New sharedFrkhash (zero_Config\<lparr>PowMode := ModeShared\<rparr>) [] False)
       \<lparr>remote := Some three_miners\<rparr>"

text \<open>The remote sealer of the tester once stopped.\<close>

definition stopped_sealer :: remoteSealer where
  "stopped_sealer = stop (startRemoteSealer [] False)"

text \<open>The tester once closed, and two callers of \<^verbatim>\<open>Close()\<close> on the tester that have returned.\<close>

definition closed_tester :: Frkhash where
  "closed_tester = tester\<lparr>remote := Some stopped_sealer, closeOnce := True\<rparr>"

definition two_callers_done :: closing where
  "two_callers_done =
     \<lparr>engine = closed_tester, runner = Some 0, callers = [Returned None, Returned None]\<rparr>"

text \<open>
  The two headers of the remote sealer test, block 1 with difficulty 100 and 1000, with
  two sealing hashes that differ, and an engine in fake mode that has a remote sealer.
\<close>

definition header_100 :: Header where
  "header_100 = \<lparr>Number = 1, Difficulty = 100, Nonce = 0, MixDigest = [],
                 SealHash = replicate 31 0 @ [0x64]\<rparr>"

definition header_1000 :: Header where
  "header_1000 = \<lparr>Number = 1, Difficulty = 1000, Nonce = 0, MixDigest = [],
                  SealHash = replicate 31 0 @ [0xe8]\<rparr>"

definition fake_engine :: Frkhash where
  "fake_engine = New sharedFrkhash (zero_Config\<lparr>PowMode := ModeFake, XIP5Block := None\<rparr>) [] False"

text \<open>The header hash of the algorithm test.\<close>

definition test_hash :: "byte list" where
  "test_hash =
     [0xc9, 0x14, 0x9c, 0xc0, 0x38, 0x6e, 0x68, 0x9d, 0x78, 0x9a, 0x1c, 0x2f, 0x3d, 0x5d, 0x16,
      0x9a, 0x61, 0xa6, 0x21, 0x8e, 0xd3, 0x0e, 0x74, 0x41, 0x4d, 0xc7, 0x36, 0xe4, 0x42, 0xef,
      0x3d, 0x1f]"

text \<open>
  The 64-byte digest the algorithm test expects, which is the seed of the test's header
  hash with nonce 0; the folded mix and the digest of the spec's algorithm on that input,
  over 8 rows of the small lookup structure.
\<close>

definition test_seed :: "byte list" where
  "test_seed =
     [0x83, 0xc5, 0x08, 0x78, 0x8b, 0x56, 0xb7, 0x31, 0x03, 0x1b, 0x4c, 0x4f, 0x4d, 0x0e, 0x7a,
     0x8b, 0x4d, 0x66, 0xe9, 0xf0, 0xc5, 0xbb, 0x43, 0x6a, 0x05, 0xf4, 0x04, 0xfc, 0x7f, 0x0f,
     0x82, 0x36, 0x5c, 0x76, 0x36, 0x62, 0x18, 0x4d, 0x57, 0x15, 0x7e, 0xf8, 0x5c, 0x46, 0x72,
     0xc3, 0xa6, 0x8a, 0xcd, 0x6f, 0xd2, 0xe3, 0x55, 0x33, 0xf5, 0x5a, 0xba, 0xa1, 0x3c, 0x23,
     0x80, 0x23, 0xb5, 0x06]"

definition test_cmix :: "byte list" where
  "test_cmix =
     [0xa2, 0x8e, 0x8a, 0x91, 0xf6, 0xcf, 0x91, 0xdc, 0xdc, 0x4b, 0x0a, 0xbe, 0xb4, 0xe8, 0x21,
     0x25, 0xc2, 0x4e, 0xff, 0x4b, 0xb6, 0xab, 0x28, 0x06, 0x7c, 0x52, 0xa1, 0xea, 0x94, 0x9d,
     0x82, 0x0e]"

definition spec_digest :: "byte list" where
  "spec_digest =
     [0x62, 0x5e, 0xfb, 0x41, 0x04, 0x8c, 0xb3, 0x8f, 0xe8, 0xc4, 0x17, 0x7c, 0x17, 0xeb, 0xd3,
     0xd6, 0xbb, 0x14, 0xb0, 0x2c, 0x9e, 0x14, 0x11, 0x1b, 0x62, 0x48, 0x1f, 0x90, 0x26, 0xb0,
     0xfb, 0x03]"

section \<open>Lengths of the hashes\<close>

lemma length_PutUint64: "length (PutUint64 v) = 8"
  by (simp add: PutUint64_def)

lemma length_theta: "length (theta a) = 25"
  by (simp add: theta_def Let_def)

lemma length_rho_pi: "length (rho_pi a) = 25"
  by (simp add: rho_pi_def rho_pi_table_def)

lemma length_chi: "length (chi b) = 25"
  by (simp add: chi_def)

lemma length_keccak_round: "length (keccak_round a rc) = 25"
  by (simp add: keccak_round_def iota_def length_chi)

lemma length_foldl_keccak_round:
  "length a = 25 \<Longrightarrow> length (foldl keccak_round a rcs) = 25"
  by (induction rcs arbitrary: a) (simp_all add: length_keccak_round)

lemma length_keccak_f: "length a = 25 \<Longrightarrow> length (keccak_f a) = 25"
  by (simp add: keccak_f_def length_foldl_keccak_round)

lemma length_absorb: "length (absorb st blk) = 25"
  by (simp add: absorb_def Let_def length_keccak_f)

lemma length_foldl_absorb:
  "length st = 25 \<Longrightarrow> length (foldl absorb st blks) = 25"
  by (induction blks arbitrary: st) (simp_all add: length_absorb)

lemma length_concat_PutUint64: "length (concat (map PutUint64 ls)) = 8 * length ls"
  by (induction ls) (simp_all add: length_PutUint64)

lemma length_keccak: "outlen \<le> 200 \<Longrightarrow> length (keccak rt outlen m) = outlen"
  by (simp add: keccak_def length_concat_PutUint64 length_foldl_absorb)

lemma length_Keccak512: "length (Keccak512 m) = 64"
  by (simp add: Keccak512_def length_keccak)

lemma length_Keccak256: "length (Keccak256 m) = 32"
  by (simp add: Keccak256_def length_keccak)

lemma frankomoto_buffer:
  "32 \<le> length hash \<Longrightarrow>
   take 32 (copy_bytes (replicate 40 0) hash) @ PutUint64 nonce
     @ drop 40 (copy_bytes (replicate 40 0) hash)
   = take 32 hash @ PutUint64 nonce"
  by (simp add: copy_bytes_def min_def)

section \<open>Properties of Threads and SetThreads\<close>

lemma threads_ping: "threads (ping e) = threads e"
  by (simp add: ping_def split: option.splits)

lemma shared_ping: "shared (ping e) = shared e"
  by (simp add: ping_def split: option.splits)

lemma SetThreads_own:
  "a < length h \<Longrightarrow> shared (h ! a) = None \<Longrightarrow> a \<notin> set held \<Longrightarrow>
   SetThreads h a n held = Inr (h[a := ping ((h ! a)\<lparr>threads := n\<rparr>)])"
  by (subst SetThreads.simps) simp

lemma SetThreads_redirect:
  "a < length h \<Longrightarrow> shared (h ! a) = Some b \<Longrightarrow> a \<notin> set held \<Longrightarrow>
   SetThreads h a n held = SetThreads h b n (a # held)"
  by (subst SetThreads.simps) simp

lemma ping_not_listening: "\<not> listening e \<Longrightarrow> ping e = e"
  by (cases "update e") (simp_all add: ping_def listening_def)

lemma ping_listening: "listening e \<Longrightarrow> notifications (ping e) = Suc (notifications e)"
  by (cases "update e") (simp_all add: ping_def listening_def notifications_def)

lemma listening_threads [simp]: "listening (e\<lparr>threads := n\<rparr>) = listening e"
  by (simp add: listening_def)

lemma notifications_threads [simp]: "notifications (e\<lparr>threads := n\<rparr>) = notifications e"
  by (simp add: notifications_def)

text \<open>
  C7: on an engine with no shared instance, \<^verbatim>\<open>SetThreads(n)\<close> returns, for every integer
  \<open>n\<close>, and a following \<^verbatim>\<open>Threads()\<close> returns \<open>n\<close>; no other engine changes; the
  notification is taken when a sealing call listens and is dropped otherwise. With a shared
  instance the call is the same call on that instance.
\<close>

theorem SetThreads_sets_threads:
  assumes "a < length h"
  shows "(shared (h ! a) = None \<longrightarrow>
           (\<exists>h'. SetThreads h a n [] = Inr h'
              \<and> Threads h' a = Inr n
              \<and> length h' = length h
              \<and> (\<forall>c. c \<noteq> a \<longrightarrow> h' ! c = h ! c)
              \<and> (\<not> listening (h ! a) \<longrightarrow> h' ! a = (h ! a)\<lparr>threads := n\<rparr>)
              \<and> (listening (h ! a) \<longrightarrow> notifications (h' ! a) = Suc (notifications (h ! a)))))
       \<and> (\<forall>b. shared (h ! a) = Some b \<longrightarrow> SetThreads h a n [] = SetThreads h b n [a])"
proof (intro conjI impI allI)
  assume nil: "shared (h ! a) = None"
  let ?h' = "h[a := ping ((h ! a)\<lparr>threads := n\<rparr>)]"
  have run: "SetThreads h a n [] = Inr ?h'"
    using assms nil by (simp add: SetThreads_own)
  have thr: "Threads ?h' a = Inr n"
    using assms by (simp add: Threads_def threads_ping)
  have quiet: "\<not> listening (h ! a) \<longrightarrow> ?h' ! a = (h ! a)\<lparr>threads := n\<rparr>"
    using assms by (simp add: ping_not_listening)
  have woken: "listening (h ! a) \<longrightarrow> notifications (?h' ! a) = Suc (notifications (h ! a))"
    using assms by (simp add: ping_listening)
  show "\<exists>h'. SetThreads h a n [] = Inr h'
              \<and> Threads h' a = Inr n
              \<and> length h' = length h
              \<and> (\<forall>c. c \<noteq> a \<longrightarrow> h' ! c = h ! c)
              \<and> (\<not> listening (h ! a) \<longrightarrow> h' ! a = (h ! a)\<lparr>threads := n\<rparr>)
              \<and> (listening (h ! a) \<longrightarrow> notifications (h' ! a) = Suc (notifications (h ! a)))"
    using run thr quiet woken by (intro exI [of _ ?h']) simp
next
  fix b assume "shared (h ! a) = Some b"
  then show "SetThreads h a n [] = SetThreads h b n [a]"
    using assms by (simp add: SetThreads_redirect)
qed

theorem SetThreads_sets_threads_witness:
  "(0::nat) < length init_heap \<and> shared (init_heap ! 0) = None
   \<and> (\<exists>h'. SetThreads init_heap 0 (- 3) [] = Inr h' \<and> Threads h' 0 = Inr (- 3))"
  using SetThreads_sets_threads [of 0 init_heap "- 3"]
  by (auto simp add: init_heap_def New_def zero_Config_def)

lemma SetThreads_via_shared:
  assumes "a < length h" "shared (h ! a) = Some b" "b < length h" "shared (h ! b) = None"
  shows "SetThreads h a n [] = Inr (h[b := ping ((h ! b)\<lparr>threads := n\<rparr>)])"
proof -
  have "a \<noteq> b" using assms by auto
  then show ?thesis
    using assms by (simp add: SetThreads_redirect SetThreads_own)
qed

lemma SetThreads_all_via_shared:
  assumes "a < length h" "shared (h ! a) = Some b" "b < length h" "shared (h ! b) = None"
  shows "\<exists>h'. SetThreads_all h a ns = Inr h' \<and> length h' = length h
           \<and> (\<forall>c. c \<noteq> b \<longrightarrow> h' ! c = h ! c) \<and> shared (h' ! b) = None"
  using assms
proof (induction ns arbitrary: h)
  case Nil
  then show ?case by simp
next
  case (Cons n ns)
  let ?h1 = "h[b := ping ((h ! b)\<lparr>threads := n\<rparr>)]"
  have ab: "a \<noteq> b" using Cons.prems by auto
  have step: "SetThreads h a n [] = Inr ?h1"
    using Cons.prems by (rule SetThreads_via_shared)
  have "\<exists>h'. SetThreads_all ?h1 a ns = Inr h' \<and> length h' = length ?h1
           \<and> (\<forall>c. c \<noteq> b \<longrightarrow> h' ! c = ?h1 ! c) \<and> shared (h' ! b) = None"
    using Cons.prems ab by (intro Cons.IH) (simp_all add: shared_ping)
  then obtain h' where h': "SetThreads_all ?h1 a ns = Inr h'" "length h' = length ?h1"
      "\<forall>c. c \<noteq> b \<longrightarrow> h' ! c = ?h1 ! c" "shared (h' ! b) = None"
    by blast
  have "SetThreads_all h a (n # ns) = Inr h'"
    using step h'(1) by simp
  moreover have "\<forall>c. c \<noteq> b \<longrightarrow> h' ! c = h ! c"
    using h'(3) by simp
  ultimately show ?case
    using h'(2,4) by simp
qed

text \<open>
  C10: on an engine with a shared instance that has none itself, \<^verbatim>\<open>SetThreads(n)\<close>
  returns and changes the shared instance only, whose thread count becomes \<open>n\<close>; after
  any run of such calls the engine itself is as before, so its own \<^verbatim>\<open>Threads()\<close> returns
  what it did, 0 for an engine fresh from \<^verbatim>\<open>NewShared()\<close>.
\<close>

theorem SetThreads_shared_frame:
  assumes "a < length h" "shared (h ! a) = Some b" "b < length h" "shared (h ! b) = None"
  shows "(\<exists>h1. SetThreads h a n [] = Inr h1
            \<and> threads (h1 ! b) = n
            \<and> (\<forall>c. c \<noteq> b \<longrightarrow> h1 ! c = h ! c))
       \<and> (\<exists>h'. SetThreads_all h a ns = Inr h'
            \<and> h' ! a = h ! a
            \<and> Threads h' a = Threads h a
            \<and> (threads (h ! a) = 0 \<longrightarrow> Threads h' a = Inr 0))"
proof (rule conjI)
  have "SetThreads h a n [] = Inr (h[b := ping ((h ! b)\<lparr>threads := n\<rparr>)])"
    using assms by (rule SetThreads_via_shared)
  then show "\<exists>h1. SetThreads h a n [] = Inr h1 \<and> threads (h1 ! b) = n
                 \<and> (\<forall>c. c \<noteq> b \<longrightarrow> h1 ! c = h ! c)"
    using assms by (simp add: threads_ping)
next
  have ab: "a \<noteq> b" using assms by auto
  obtain h' where h': "SetThreads_all h a ns = Inr h'" "length h' = length h"
      "\<forall>c. c \<noteq> b \<longrightarrow> h' ! c = h ! c"
    using SetThreads_all_via_shared [OF assms] by blast
  have same: "h' ! a = h ! a"
    using h'(3) ab by simp
  have "Threads h' a = Threads h a"
    using same h'(2) by (simp add: Threads_def)
  then show "\<exists>h'. SetThreads_all h a ns = Inr h' \<and> h' ! a = h ! a
                 \<and> Threads h' a = Threads h a
                 \<and> (threads (h ! a) = 0 \<longrightarrow> Threads h' a = Inr 0)"
    using h'(1) same assms(1) by (auto simp add: Threads_def)
qed

theorem SetThreads_shared_frame_witness:
  "(1::nat) < length shared_heap \<and> shared (shared_heap ! 1) = Some 0
   \<and> (0::nat) < length shared_heap \<and> shared (shared_heap ! 0) = None
   \<and> (\<exists>h1. SetThreads shared_heap 1 8 [] = Inr h1 \<and> threads (h1 ! 0) = 8)
   \<and> (\<exists>h'. SetThreads_all shared_heap 1 [8, 0, - 1] = Inr h' \<and> Threads h' 1 = Inr 0)"
proof -
  have a: "(1::nat) < length shared_heap"
    by (simp add: shared_heap_def alloc_def init_heap_def)
  have s: "shared (shared_heap ! 1) = Some 0"
    by (simp add: shared_heap_def alloc_def init_heap_def NewShared_def zero_Frkhash_def
        sharedFrkhash_def)
  have b: "(0::nat) < length shared_heap"
    by (simp add: shared_heap_def alloc_def init_heap_def)
  have t: "shared (shared_heap ! 0) = None"
    by (simp add: shared_heap_def alloc_def init_heap_def New_def zero_Config_def)
  have z: "threads (shared_heap ! 1) = 0"
    by (simp add: shared_heap_def alloc_def init_heap_def NewShared_def zero_Frkhash_def)
  show ?thesis
    using SetThreads_shared_frame [OF a s b t, of 8 "[8, 0, - 1]"] a s b t z by blast
qed

section \<open>Properties of Close\<close>

lemma Close_done: "closeOnce e \<Longrightarrow> Close e = Inr (None, e)"
  by (simp add: Close_def)

lemma Close_times_done: "closeOnce e \<Longrightarrow> Close_times k e = Inr (replicate k None, e)"
  by (induction k) (simp_all add: Close_done)

lemma Close_first:
  assumes "engine_inv e" "\<not> closeOnce e"
  shows "Close e = Inr (None, e\<lparr>remote := map_option stop (remote e), closeOnce := True\<rparr>)"
proof (cases "remote e")
  case None
  then have "e\<lparr>remote := None\<rparr> = e"
    by (cases e) simp
  then show ?thesis
    using None assms by (simp add: Close_def)
next
  case (Some r)
  then show ?thesis
    using assms by (simp add: Close_def engine_inv_def)
qed

lemma engine_inv_closed:
  assumes "engine_inv e" "\<not> closeOnce e"
  shows "engine_inv (e\<lparr>remote := map_option stop (remote e), closeOnce := True\<rparr>)"
  using assms
  by (cases "remote e") (simp_all add: engine_inv_def stop_def request_exit_def loop_exit_def)

lemma teardowns_closed:
  assumes "engine_inv e" "\<not> closeOnce e"
  shows "teardowns (e\<lparr>remote := map_option stop (remote e), closeOnce := True\<rparr>)
           = (if remote e = None then 0 else 1)"
  using assms
  by (cases "remote e")
     (simp_all add: engine_inv_def teardowns_def stop_def request_exit_def loop_exit_def)

lemma teardowns_inv:
  "engine_inv e \<Longrightarrow> teardowns e = (if closeOnce e \<and> remote e \<noteq> None then 1 else 0)"
  by (cases "remote e") (simp_all add: engine_inv_def teardowns_def)

lemma engine_inv_New: "engine_inv (New sf cfg notify nv)"
  by (simp add: engine_inv_def New_def startRemoteSealer_def)

lemma engine_inv_zero: "engine_inv zero_Frkhash"
  by (simp add: engine_inv_def zero_Frkhash_def)

subsection \<open>Callers at the same time\<close>

lemma closing_inv_init: "closing_inv e n (closing_init e n)"
  by (auto simp add: closing_inv_def closing_init_def)

lemma sum_list_rank_update:
  "i < length cs \<Longrightarrow>
   sum_list (map rank (cs[i := x])) + rank (cs ! i) = sum_list (map rank cs) + rank x"
proof (induction cs arbitrary: i)
  case Nil
  then show ?case by simp
next
  case (Cons c cs)
  then show ?case by (cases i) auto
qed

lemma close_step_measure: "close_step s s' \<Longrightarrow> closing_measure s' < closing_measure s"
proof (induction rule: close_step.induct)
  case (enter_first i s)
  then show ?case
    using sum_list_rank_update [of i "callers s" Running] by (simp add: closing_measure_def)
next
  case (enter_wait i s)
  then show ?case
    using sum_list_rank_update [of i "callers s" Waiting] by (simp add: closing_measure_def)
next
  case (enter_done i s)
  then show ?case
    using sum_list_rank_update [of i "callers s" "Returned None"]
    by (auto simp add: closing_measure_def)
next
  case (run_nil i s)
  then show ?case
    using sum_list_rank_update [of i "callers s" "Returned None"]
    by (simp add: closing_measure_def)
next
  case (run_signal i s r)
  then show ?case
    using sum_list_rank_update [of i "callers s" Awaiting]
    by (simp add: closing_measure_def request_exit_def)
next
  case (run_panic i s r)
  then show ?case
    using sum_list_rank_update [of i "callers s" "Panicked CloseOfClosedChannel"]
    by (simp add: closing_measure_def)
next
  case (loop_exits s r)
  then show ?case
    by (simp add: closing_measure_def loop_exit_def)
next
  case (await_done i s r)
  then show ?case
    using sum_list_rank_update [of i "callers s" "Returned None"]
    by (simp add: closing_measure_def)
qed



lemma others_update: "others S i cs \<Longrightarrow> x \<in> S \<Longrightarrow> others S i (cs[j := x])"
  by (cases "j < length cs") (auto simp add: others_def nth_list_update)

lemma others_update_self: "others S i cs \<Longrightarrow> others S i (cs[i := x])"
  by (simp add: others_def nth_list_update)

lemma others_mono: "others S i cs \<Longrightarrow> S \<subseteq> S' \<Longrightarrow> others S' i cs"
  by (auto simp add: others_def)

lemma others_nth: "others S i cs \<Longrightarrow> j < length cs \<Longrightarrow> cs ! j \<notin> S \<Longrightarrow> j = i"
  by (auto simp add: others_def)

lemma others_all: "set cs \<subseteq> S \<Longrightarrow> others S i cs"
  by (auto simp add: others_def)

lemma holder_other:
  "holder i e' c S s \<Longrightarrow> j < length (callers s) \<Longrightarrow> callers s ! j \<noteq> c \<Longrightarrow> x \<in> S \<Longrightarrow>
   holder i e' c S (s\<lparr>callers := (callers s)[j := x]\<rparr>)"
  by (auto simp add: holder_def others_update nth_list_update)

lemma holder_self:
  "holder i e' c S s \<Longrightarrow> S \<subseteq> S' \<Longrightarrow>
   holder i e'' c' S' (s\<lparr>engine := e'', callers := (callers s)[i := c']\<rparr>)"
  by (auto simp add: holder_def others_update_self others_mono)

lemma holder_engine:
  "holder i e' c S s \<Longrightarrow> holder i e'' c S (s\<lparr>engine := e''\<rparr>)"
  by (simp add: holder_def)

lemma holder_at:
  "holder i e' c S s \<Longrightarrow> j < length (callers s) \<Longrightarrow> callers s ! j \<notin> S \<Longrightarrow> j = i"
  by (auto simp add: holder_def dest: others_nth)

lemma holder_facts:
  "holder i e' c S s \<Longrightarrow> engine s = e' \<and> runner s = Some i \<and> callers s ! i = c
     \<and> i < length (callers s)"
  by (simp add: holder_def)


lemma inv_enter_first:
  assumes "closing_inv e n s" "i < length (callers s)" "callers s ! i = Calling"
    "\<not> closeOnce (engine s)" "runner s = None"
  shows "closing_inv e n (s\<lparr>runner := Some i, callers := (callers s)[i := Running]\<rparr>)"
proof -
  from assms have a: "\<not> closeOnce e" "engine s = e" "length (callers s) = n"
    "set (callers s) \<subseteq> {Calling}"
    by (auto simp add: closing_inv_def holder_def split: if_splits)
  from a(4) have "others {Calling, Waiting} i (callers s)"
    by (auto intro: others_all)
  then have "holder i e Running {Calling, Waiting}
      (s\<lparr>runner := Some i, callers := (callers s)[i := Running]\<rparr>)"
    using assms(2) a(2) by (simp add: holder_def others_update_self)
  then show ?thesis
    using a(1,3) unfolding closing_inv_def by auto
qed

lemma inv_enter_wait:
  assumes "closing_inv e n s" "i < length (callers s)" "callers s ! i = Calling"
    "\<not> closeOnce (engine s)" "runner s \<noteq> None"
  shows "closing_inv e n (s\<lparr>callers := (callers s)[i := Waiting]\<rparr>)"
proof -
  have w: "holder k e' c {Calling, Waiting} s \<Longrightarrow> c \<noteq> Calling \<Longrightarrow>
      holder k e' c {Calling, Waiting} (s\<lparr>callers := (callers s)[i := Waiting]\<rparr>)" for k e' c
    using assms(2,3) by (simp add: holder_other)
  from assms(1,4,5) have n: "\<not> closeOnce e" "length (callers s) = n"
    by (auto simp add: closing_inv_def split: if_splits)
  from assms(1,4,5) n consider
      (run) k where "holder k e Running {Calling, Waiting} s"
    | (sig) k where "remote e \<noteq> None"
        "holder k (e\<lparr>remote := map_option request_exit (remote e)\<rparr>) Awaiting {Calling, Waiting} s"
    | (gone) k where "remote e \<noteq> None"
        "holder k (e\<lparr>remote := map_option stop (remote e)\<rparr>) Awaiting {Calling, Waiting} s"
    unfolding closing_inv_def by (auto dest: holder_facts)
  then show ?thesis
  proof cases
    case run
    from w [OF run] show ?thesis using n unfolding closing_inv_def by auto
  next
    case sig
    from w [OF sig(2)] sig(1) show ?thesis using n unfolding closing_inv_def by auto
  next
    case gone
    from w [OF gone(2)] gone(1) show ?thesis using n unfolding closing_inv_def by auto
  qed
qed


lemma inv_length: "closing_inv e n s \<Longrightarrow> length (callers s) = n"
  by (simp add: closing_inv_def)

lemma inv_Running:
  assumes "closing_inv e n s" "i < length (callers s)" "callers s ! i = Running"
  shows "\<not> closeOnce e \<and> holder i e Running {Calling, Waiting} s"
proof -
  have m: "callers s ! i \<in> set (callers s)"
    using assms(2) by simp
  have h: "holder k e' c S s \<Longrightarrow> Running \<notin> S \<Longrightarrow> k = i \<and> c = Running" for k e' c S
    using holder_at [of k e' c S s i] assms(2,3) by (auto simp add: holder_def)
  from assms(1) m assms(3) show ?thesis
    unfolding closing_inv_def by (auto split: if_splits dest: h)
qed

lemma inv_Awaiting:
  assumes "closing_inv e n s" "i < length (callers s)" "callers s ! i = Awaiting"
  shows "\<not> closeOnce e \<and> remote e \<noteq> None \<and>
    (holder i (e\<lparr>remote := map_option request_exit (remote e)\<rparr>) Awaiting {Calling, Waiting} s
     \<or> holder i (e\<lparr>remote := map_option stop (remote e)\<rparr>) Awaiting {Calling, Waiting} s)"
proof -
  have m: "callers s ! i \<in> set (callers s)"
    using assms(2) by simp
  have h: "holder k e' c S s \<Longrightarrow> Awaiting \<notin> S \<Longrightarrow> k = i \<and> c = Awaiting" for k e' c S
    using holder_at [of k e' c S s i] assms(2,3) by (auto simp add: holder_def)
  from assms(1) m assms(3) show ?thesis
    unfolding closing_inv_def by (auto split: if_splits dest: h)
qed

lemma inv_enter_done:
  assumes "closing_inv e n s" "i < length (callers s)"
    "callers s ! i = Calling \<or> callers s ! i = Waiting" "closeOnce (engine s)"
  shows "closing_inv e n (s\<lparr>callers := (callers s)[i := Returned None]\<rparr>)"
proof (cases "closeOnce e")
  case True
  with assms(1) have a: "engine s = e" "runner s = None" "length (callers s) = n"
    "set (callers s) \<subseteq> {Calling, Returned None}"
    by (simp_all add: closing_inv_def)
  have "set ((callers s)[i := Returned None]) \<subseteq> insert (Returned None) (set (callers s))"
    by (rule set_update_subset_insert)
  with a(4) have "set ((callers s)[i := Returned None]) \<subseteq> {Calling, Returned None}"
    by auto
  with True a(1,2,3) show ?thesis
    by (simp add: closing_inv_def)
next
  case False
  with assms(1,4) obtain k where
    k: "holder k (e\<lparr>remote := map_option stop (remote e), closeOnce := True\<rparr>)
          (Returned None) {Calling, Waiting, Returned None} s"
    and n: "length (callers s) = n"
    unfolding closing_inv_def by (auto dest: holder_facts)
  from assms(3) have "callers s ! i \<noteq> Returned None"
    by auto
  with k assms(2) have "holder k (e\<lparr>remote := map_option stop (remote e), closeOnce := True\<rparr>)
          (Returned None) {Calling, Waiting, Returned None}
          (s\<lparr>callers := (callers s)[i := Returned None]\<rparr>)"
    by (simp add: holder_other)
  with False n show ?thesis
    unfolding closing_inv_def by auto
qed

lemma inv_run_nil:
  assumes "closing_inv e n s" "i < length (callers s)" "callers s ! i = Running"
    "remote (engine s) = None"
  shows "closing_inv e n (s\<lparr>engine := (engine s)\<lparr>closeOnce := True\<rparr>,
                      callers := (callers s)[i := Returned None]\<rparr>)"
proof -
  from inv_Running [OF assms(1,2,3)]
  have c: "\<not> closeOnce e" and h: "holder i e Running {Calling, Waiting} s"
    by simp_all
  from h have es: "engine s = e"
    by (simp add: holder_def)
  with assms(4) have eq: "(engine s)\<lparr>closeOnce := True\<rparr>
      = e\<lparr>remote := map_option stop (remote e), closeOnce := True\<rparr>"
    by simp
  have "holder i (e\<lparr>remote := map_option stop (remote e), closeOnce := True\<rparr>)
          (Returned None) {Calling, Waiting, Returned None}
          (s\<lparr>engine := e\<lparr>remote := map_option stop (remote e), closeOnce := True\<rparr>,
             callers := (callers s)[i := Returned None]\<rparr>)"
    by (rule holder_self [OF h]) auto
  with c inv_length [OF assms(1)] show ?thesis
    unfolding closing_inv_def eq by auto
qed

lemma inv_run_signal:
  assumes "closing_inv e n s" "i < length (callers s)" "callers s ! i = Running"
    "remote (engine s) = Some r"
  shows "closing_inv e n (s\<lparr>engine := (engine s)\<lparr>remote := Some (request_exit r)\<rparr>,
                      callers := (callers s)[i := Awaiting]\<rparr>)"
proof -
  from inv_Running [OF assms(1,2,3)]
  have c: "\<not> closeOnce e" and h: "holder i e Running {Calling, Waiting} s"
    by simp_all
  from h have es: "engine s = e"
    by (simp add: holder_def)
  with assms(4) have eq: "(engine s)\<lparr>remote := Some (request_exit r)\<rparr>
      = e\<lparr>remote := map_option request_exit (remote e)\<rparr>" and r: "remote e \<noteq> None"
    by simp_all
  have "holder i (e\<lparr>remote := map_option request_exit (remote e)\<rparr>)
          Awaiting {Calling, Waiting}
          (s\<lparr>engine := e\<lparr>remote := map_option request_exit (remote e)\<rparr>,
             callers := (callers s)[i := Awaiting]\<rparr>)"
    by (rule holder_self [OF h]) auto
  with c r inv_length [OF assms(1)] show ?thesis
    unfolding closing_inv_def eq by auto
qed

lemma inv_run_panic:
  assumes "engine_inv e" "closing_inv e n s" "i < length (callers s)" "callers s ! i = Running"
    "remote (engine s) = Some r" "exitRequests r \<noteq> 0"
  shows False
proof -
  from inv_Running [OF assms(2,3,4)]
  have c: "\<not> closeOnce e" and h: "holder i e Running {Calling, Waiting} s"
    by simp_all
  from h have "engine s = e"
    by (simp add: holder_def)
  with assms(1,5,6) c show False
    by (simp add: engine_inv_def)
qed

lemma inv_loop_exits:
  assumes "engine_inv e" "closing_inv e n s"
    "remote (engine s) = Some r" "exitRequests r \<noteq> 0" "\<not> exited r"
  shows "closing_inv e n (s\<lparr>engine := (engine s)\<lparr>remote := Some (loop_exit r)\<rparr>\<rparr>)"
proof -
  have x: "engine s \<noteq> e"
    using assms(1,3,4,5) by (auto simp add: engine_inv_def split: if_splits)
  have y: "engine s \<noteq> e\<lparr>remote := map_option stop (remote e)\<rparr>"
    using assms(3,5) by (auto simp add: stop_def loop_exit_def)
  have z: "engine s \<noteq> e\<lparr>remote := map_option stop (remote e), closeOnce := True\<rparr>"
    using assms(3,5) by (auto simp add: stop_def loop_exit_def)
  from assms(2) x y z obtain k where c: "\<not> closeOnce e" and r: "remote e \<noteq> None"
    and h: "holder k (e\<lparr>remote := map_option request_exit (remote e)\<rparr>)
              Awaiting {Calling, Waiting} s"
    unfolding closing_inv_def by (auto split: if_splits dest: holder_facts)
  from h have es: "engine s = e\<lparr>remote := map_option request_exit (remote e)\<rparr>"
    by (simp add: holder_def)
  with assms(3) r have eq: "(engine s)\<lparr>remote := Some (loop_exit r)\<rparr>
      = e\<lparr>remote := map_option stop (remote e)\<rparr>"
    by (auto simp add: stop_def)
  have "holder k (e\<lparr>remote := map_option stop (remote e)\<rparr>) Awaiting {Calling, Waiting}
          (s\<lparr>engine := e\<lparr>remote := map_option stop (remote e)\<rparr>\<rparr>)"
    by (rule holder_engine [OF h])
  with c r inv_length [OF assms(2)] show ?thesis
    unfolding closing_inv_def eq by auto
qed

lemma inv_await_done:
  assumes "engine_inv e" "closing_inv e n s" "i < length (callers s)"
    "callers s ! i = Awaiting" "remote (engine s) = Some r" "exited r"
  shows "closing_inv e n (s\<lparr>engine := (engine s)\<lparr>closeOnce := True\<rparr>,
                      callers := (callers s)[i := Returned None]\<rparr>)"
proof -
  from inv_Awaiting [OF assms(2,3,4)]
  have c: "\<not> closeOnce e" and r: "remote e \<noteq> None"
    and d: "holder i (e\<lparr>remote := map_option request_exit (remote e)\<rparr>) Awaiting {Calling, Waiting} s
     \<or> holder i (e\<lparr>remote := map_option stop (remote e)\<rparr>) Awaiting {Calling, Waiting} s"
    by simp_all
  have "engine s \<noteq> e\<lparr>remote := map_option request_exit (remote e)\<rparr>"
    using assms(1,5,6) c by (auto simp add: engine_inv_def request_exit_def)
  with d have h: "holder i (e\<lparr>remote := map_option stop (remote e)\<rparr>) Awaiting {Calling, Waiting} s"
    by (auto dest: holder_facts)
  then have eq: "(engine s)\<lparr>closeOnce := True\<rparr>
      = e\<lparr>remote := map_option stop (remote e), closeOnce := True\<rparr>"
    by (simp add: holder_def)
  have "holder i (e\<lparr>remote := map_option stop (remote e), closeOnce := True\<rparr>)
          (Returned None) {Calling, Waiting, Returned None}
          (s\<lparr>engine := e\<lparr>remote := map_option stop (remote e), closeOnce := True\<rparr>,
             callers := (callers s)[i := Returned None]\<rparr>)"
    by (rule holder_self [OF h]) auto
  with c inv_length [OF assms(2)] show ?thesis
    unfolding closing_inv_def eq by auto
qed

lemma closing_inv_step:
  assumes "engine_inv e" and "closing_inv e n s" and "close_step s s'"
  shows "closing_inv e n s'"
  using assms(3) assms(1,2)
proof (induction rule: close_step.induct)
  case (enter_first i s)
  then show ?case by (simp add: inv_enter_first)
next
  case (enter_wait i s)
  then show ?case by (simp add: inv_enter_wait)
next
  case (enter_done i s)
  then show ?case by (simp add: inv_enter_done)
next
  case (run_nil i s)
  then show ?case by (simp add: inv_run_nil)
next
  case (run_signal i s r)
  then show ?case by (simp add: inv_run_signal)
next
  case (run_panic i s r)
  then show ?case using inv_run_panic by blast
next
  case (loop_exits s r)
  then show ?case by (simp add: inv_loop_exits)
next
  case (await_done i s r)
  then show ?case by (simp add: inv_await_done)
qed

lemma closing_inv_reach:
  assumes "engine_inv e" and "close_step\<^sup>*\<^sup>* (closing_init e n) s"
  shows "closing_inv e n s"
  using assms(2)
proof (induction rule: rtranclp_induct)
  case base
  show ?case by (rule closing_inv_init)
next
  case (step s s')
  then show ?case using closing_inv_step [OF assms(1)] by blast
qed


lemma closing_inv_cases:
  assumes "closing_inv e n s"
  obtains
    (closed) "closeOnce e" "engine s = e" "runner s = None"
      "set (callers s) \<subseteq> {Calling, Returned None}"
  | (fresh) "\<not> closeOnce e" "engine s = e" "runner s = None" "set (callers s) \<subseteq> {Calling}"
  | (run) k where "\<not> closeOnce e" "holder k e Running {Calling, Waiting} s"
  | (sig) k where "\<not> closeOnce e" "remote e \<noteq> None"
      "holder k (e\<lparr>remote := map_option request_exit (remote e)\<rparr>) Awaiting {Calling, Waiting} s"
  | (gone) k where "\<not> closeOnce e" "remote e \<noteq> None"
      "holder k (e\<lparr>remote := map_option stop (remote e)\<rparr>) Awaiting {Calling, Waiting} s"
  | (finished) k where "\<not> closeOnce e"
      "holder k (e\<lparr>remote := map_option stop (remote e), closeOnce := True\<rparr>) (Returned None)
         {Calling, Waiting, Returned None} s"
proof (cases "closeOnce e")
  case True
  with assms closed show ?thesis
    by (simp add: closing_inv_def)
next
  case False
  with assms have "(engine s = e \<and> runner s = None \<and> set (callers s) \<subseteq> {Calling})
          \<or> (\<exists>i. holder i e Running {Calling, Waiting} s)
          \<or> (\<exists>i. remote e \<noteq> None
                \<and> holder i (e\<lparr>remote := map_option request_exit (remote e)\<rparr>)
                     Awaiting {Calling, Waiting} s)
          \<or> (\<exists>i. remote e \<noteq> None
                \<and> holder i (e\<lparr>remote := map_option stop (remote e)\<rparr>)
                     Awaiting {Calling, Waiting} s)
          \<or> (\<exists>i. holder i (e\<lparr>remote := map_option stop (remote e), closeOnce := True\<rparr>)
                     (Returned None) {Calling, Waiting, Returned None} s)"
    by (simp add: closing_inv_def)
  then show ?thesis
    using False by (elim disjE exE conjE) (auto intro: fresh run sig gone finished)
qed

lemma holder_nth:
  "holder k e' c S s \<Longrightarrow> i < length (callers s) \<Longrightarrow> callers s ! i \<in> insert c S"
  by (cases "i = k") (auto simp add: holder_def others_def)

lemma inv_callers:
  assumes "engine_inv e" "closing_inv e n s" "i < n"
  shows "callers s ! i \<noteq> Panicked f"
    and "callers s ! i = Returned err \<Longrightarrow>
           err = None \<and> engine s = (if closeOnce e then e
              else e\<lparr>remote := map_option stop (remote e), closeOnce := True\<rparr>)"
    and "callers s ! i = Running \<or> callers s ! i = Awaiting \<Longrightarrow> runner s = Some i"
proof -
  have l: "i < length (callers s)"
    using assms(2,3) by (simp add: inv_length)
  then have m: "callers s ! i \<in> set (callers s)"
    by simp
  have a: "callers s ! i \<noteq> Panicked f
    \<and> (callers s ! i = Returned err \<longrightarrow>
           err = None \<and> engine s = (if closeOnce e then e
              else e\<lparr>remote := map_option stop (remote e), closeOnce := True\<rparr>))
    \<and> (callers s ! i = Running \<or> callers s ! i = Awaiting \<longrightarrow> runner s = Some i)"
    using assms(2)
  proof (cases rule: closing_inv_cases)
    case closed
    with m show ?thesis by auto
  next
    case fresh
    with m show ?thesis by auto
  next
    case (run k)
    from holder_nth [OF run(2) l] holder_at [OF run(2) l] holder_facts [OF run(2)]
    show ?thesis by auto
  next
    case (sig k)
    from holder_nth [OF sig(3) l] holder_at [OF sig(3) l] holder_facts [OF sig(3)]
    show ?thesis by auto
  next
    case (gone k)
    from holder_nth [OF gone(3) l] holder_at [OF gone(3) l] holder_facts [OF gone(3)]
    show ?thesis by auto
  next
    case (finished k)
    from holder_nth [OF finished(2) l] holder_facts [OF finished(2)] finished(1)
    show ?thesis by auto
  qed
  from a show "callers s ! i \<noteq> Panicked f" by simp
  from a show "callers s ! i = Returned err \<Longrightarrow>
           err = None \<and> engine s = (if closeOnce e then e
              else e\<lparr>remote := map_option stop (remote e), closeOnce := True\<rparr>)" by simp
  from a show "callers s ! i = Running \<or> callers s ! i = Awaiting \<Longrightarrow> runner s = Some i"
    by simp
qed

lemma inv_teardowns:
  assumes "engine_inv e" "closing_inv e n s"
  shows "teardowns (engine s) \<le> (if remote e = None then 0 else 1)"
  using assms(2)
proof (cases rule: closing_inv_cases)
  case closed
  then show ?thesis using assms(1) by (simp add: teardowns_inv)
next
  case fresh
  then show ?thesis using assms(1) by (simp add: teardowns_inv)
next
  case (run k)
  then show ?thesis using assms(1) by (simp add: teardowns_inv holder_def)
next
  case (sig k)
  then show ?thesis using assms(1)
    by (auto simp add: teardowns_def holder_def engine_inv_def request_exit_def)
next
  case (gone k)
  then show ?thesis using assms(1)
    by (auto simp add: teardowns_def holder_def engine_inv_def request_exit_def stop_def
        loop_exit_def)
next
  case (finished k)
  then show ?thesis using assms(1)
    by (auto simp add: teardowns_def holder_def engine_inv_def request_exit_def stop_def
        loop_exit_def)
qed

lemma inv_progress:
  assumes "engine_inv e" "closing_inv e n s" "i < n" "\<forall>err. callers s ! i \<noteq> Returned err"
  shows "\<exists>s'. close_step s s'"
proof -
  have l: "i < length (callers s)"
    using assms(2,3) by (simp add: inv_length)
  then have m: "callers s ! i \<in> set (callers s)"
    by simp
  from assms(2) show ?thesis
  proof (cases rule: closing_inv_cases)
    case closed
    with m assms(4) have "callers s ! i = Calling" by auto
    with l closed show ?thesis
      using enter_done [of i s] by auto
  next
    case fresh
    with m have "callers s ! i = Calling" by auto
    with l fresh show ?thesis
      using enter_first [of i s] by auto
  next
    case (run k)
    then have k: "k < length (callers s)" "callers s ! k = Running" "engine s = e"
      by (simp_all add: holder_def)
    show ?thesis
    proof (cases "remote e")
      case None
      with k show ?thesis using run_nil [of k s] by auto
    next
      case (Some r)
      with run(1) assms(1) have "exitRequests r = 0"
        by (simp add: engine_inv_def)
      with k Some show ?thesis using run_signal [of k s r] by auto
    qed
  next
    case (sig k)
    then obtain r where r: "remote e = Some r" by auto
    with sig have "remote (engine s) = Some (request_exit r)"
      by (simp add: holder_def)
    moreover have "exitRequests (request_exit r) \<noteq> 0" "\<not> exited (request_exit r)"
      using r sig(1) assms(1) by (simp_all add: engine_inv_def request_exit_def)
    ultimately show ?thesis
      using loop_exits [of s "request_exit r"] by auto
  next
    case (gone k)
    then obtain r where r: "remote e = Some r" by auto
    with gone have "remote (engine s) = Some (stop r)" "k < length (callers s)"
        "callers s ! k = Awaiting"
      by (simp_all add: holder_def)
    moreover have "exited (stop r)"
      by (simp add: stop_def loop_exit_def)
    ultimately show ?thesis
      using await_done [of k s "stop r"] by auto
  next
    case (finished k)
    from holder_nth [OF finished(2) l] assms(4)
    have "callers s ! i = Calling \<or> callers s ! i = Waiting" by auto
    moreover from finished(2) have "closeOnce (engine s)"
      by (simp add: holder_def)
    ultimately show ?thesis
      using enter_done [of i s] l by auto
  qed
qed


lemma tester_open:
  "\<not> closeOnce tester" "remote tester = Some (startRemoteSealer [] False)"
  by (simp_all add: tester_def NewTester_def New_def)

lemma two_callers_run: "close_step\<^sup>*\<^sup>* (closing_init tester 2) two_callers_done"
proof -
  let ?r = "startRemoteSealer [] False"
  let ?s0 = "\<lparr>engine = tester, runner = None, callers = [Calling, Calling]\<rparr>"
  let ?s1 = "\<lparr>engine = tester, runner = Some 0, callers = [Running, Calling]\<rparr>"
  let ?s2 = "\<lparr>engine = tester, runner = Some 0, callers = [Running, Waiting]\<rparr>"
  let ?s3 = "\<lparr>engine = tester\<lparr>remote := Some (request_exit ?r)\<rparr>, runner = Some 0,
              callers = [Awaiting, Waiting]\<rparr>"
  let ?s4 = "\<lparr>engine = tester\<lparr>remote := Some (stop ?r)\<rparr>, runner = Some 0,
              callers = [Awaiting, Waiting]\<rparr>"
  let ?s5 = "\<lparr>engine = tester\<lparr>remote := Some (stop ?r), closeOnce := True\<rparr>, runner = Some 0,
              callers = [Returned None, Waiting]\<rparr>"
  let ?s6 = "\<lparr>engine = tester\<lparr>remote := Some (stop ?r), closeOnce := True\<rparr>, runner = Some 0,
              callers = [Returned None, Returned None]\<rparr>"
  have i: "closing_init tester 2 = ?s0"
    by (simp add: closing_init_def numeral_2_eq_2)
  have 1: "close_step ?s0 ?s1"
    using enter_first [of 0 ?s0] tester_open by simp
  have 2: "close_step ?s1 ?s2"
    using enter_wait [of 1 ?s1] tester_open by simp
  have 3: "close_step ?s2 ?s3"
    using run_signal [of 0 ?s2 ?r] tester_open by (simp add: startRemoteSealer_def)
  have 4: "close_step ?s3 ?s4"
    using loop_exits [of ?s3 "request_exit ?r"]
    by (simp add: stop_def request_exit_def startRemoteSealer_def)
  have 5: "close_step ?s4 ?s5"
    using await_done [of 0 ?s4 "stop ?r"] by (simp add: stop_def loop_exit_def)
  have 6: "close_step ?s5 ?s6"
    using enter_done [of 1 ?s5] by simp
  have f: "two_callers_done = ?s6"
    by (simp add: two_callers_done_def closed_tester_def stopped_sealer_def)
  from 1 2 3 4 5 6 have "close_step\<^sup>*\<^sup>* ?s0 ?s6"
    by (meson rtranclp.rtrancl_into_rtrancl rtranclp.rtrancl_refl)
  then show ?thesis
    by (simp only: i f)
qed

text \<open>
  C8: \<^verbatim>\<open>Close()\<close> returns the nil error on every call. The first call tears the remote
  sealer down: it asks the sealer to exit and waits until it has; a call on a closed engine
  changes nothing; so after any run of one or more calls the sealer has been asked to exit
  exactly once (never, when the engine has none). Callers at the same time: in every state
  that interleaved calls reach, no caller has panicked, at most one caller is inside the
  teardown, a caller that has returned has returned nil and finds the engine as one call
  alone leaves it, the sealer has been asked to exit at most once, a step is possible while
  a caller has not returned, and every step brings the run nearer its end.
\<close>

theorem Close_idempotent:
  assumes "engine_inv e"
  shows "\<exists>e1. e1 = (if closeOnce e then e
                    else e\<lparr>remote := map_option stop (remote e), closeOnce := True\<rparr>)
           \<and> Close e = Inr (None, e1)
           \<and> Close e1 = Inr (None, e1)
           \<and> closeOnce e1 \<and> engine_inv e1
           \<and> teardowns e1 = (if remote e = None then 0 else 1)
           \<and> (\<forall>k. Close_times (Suc k) e = Inr (replicate (Suc k) None, e1))
           \<and> (\<forall>n s. close_step\<^sup>*\<^sup>* (closing_init e n) s \<longrightarrow>
                 length (callers s) = n
                 \<and> (\<forall>i < n. (\<forall>f. callers s ! i \<noteq> Panicked f)
                      \<and> (\<forall>err. callers s ! i = Returned err \<longrightarrow> err = None \<and> engine s = e1)
                      \<and> (callers s ! i = Running \<or> callers s ! i = Awaiting
                            \<longrightarrow> runner s = Some i)
                      \<and> ((\<forall>err. callers s ! i \<noteq> Returned err) \<longrightarrow> (\<exists>s'. close_step s s')))
                 \<and> teardowns (engine s) \<le> teardowns e1
                 \<and> (\<forall>s'. close_step s s' \<longrightarrow> closing_measure s' < closing_measure s))"
proof -
  define e1 where "e1 = (if closeOnce e then e
                    else e\<lparr>remote := map_option stop (remote e), closeOnce := True\<rparr>)"
  have first: "Close e = Inr (None, e1)"
    using assms by (simp add: e1_def Close_done Close_first)
  have closed: "closeOnce e1"
    by (simp add: e1_def)
  then have again: "Close e1 = Inr (None, e1)"
    by (rule Close_done)
  have inv: "engine_inv e1"
    using assms by (simp add: e1_def engine_inv_closed)
  have td: "teardowns e1 = (if remote e = None then 0 else 1)"
  proof (cases "closeOnce e")
    case True
    then show ?thesis
      using assms by (simp add: e1_def teardowns_inv)
  next
    case False
    then show ?thesis
      using teardowns_closed [OF assms False] by (simp only: e1_def if_False)
  qed
  have times: "\<forall>k. Close_times (Suc k) e = Inr (replicate (Suc k) None, e1)"
    using first closed by (simp add: Close_times_done)
  have conc: "length (callers s) = n
       \<and> (\<forall>i < n. (\<forall>f. callers s ! i \<noteq> Panicked f)
            \<and> (\<forall>err. callers s ! i = Returned err \<longrightarrow> err = None \<and> engine s = e1)
            \<and> (callers s ! i = Running \<or> callers s ! i = Awaiting \<longrightarrow> runner s = Some i)
            \<and> ((\<forall>err. callers s ! i \<noteq> Returned err) \<longrightarrow> (\<exists>s'. close_step s s')))
       \<and> teardowns (engine s) \<le> teardowns e1
       \<and> (\<forall>s'. close_step s s' \<longrightarrow> closing_measure s' < closing_measure s)"
    if reach: "close_step\<^sup>*\<^sup>* (closing_init e n) s" for n s
  proof -
    have ci: "closing_inv e n s"
      using assms reach by (rule closing_inv_reach)
    have "length (callers s) = n"
      using ci by (rule inv_length)
    moreover have "(\<forall>f. callers s ! i \<noteq> Panicked f)
            \<and> (\<forall>err. callers s ! i = Returned err \<longrightarrow> err = None \<and> engine s = e1)
            \<and> (callers s ! i = Running \<or> callers s ! i = Awaiting \<longrightarrow> runner s = Some i)
            \<and> ((\<forall>err. callers s ! i \<noteq> Returned err) \<longrightarrow> (\<exists>s'. close_step s s'))"
      if "i < n" for i
      using inv_callers [OF assms ci that] inv_progress [OF assms ci that]
      unfolding e1_def by blast
    moreover have "teardowns (engine s) \<le> teardowns e1"
      using inv_teardowns [OF assms ci] td by simp
    moreover have "\<forall>s'. close_step s s' \<longrightarrow> closing_measure s' < closing_measure s"
      by (simp add: close_step_measure)
    ultimately show ?thesis
      by blast
  qed
  show ?thesis
    using first again closed inv td times conc e1_def by blast
qed

theorem Close_idempotent_witness:
  "engine_inv tester
   \<and> Close tester = Inr (None, closed_tester)
   \<and> Close closed_tester = Inr (None, closed_tester)
   \<and> Close_times 3 tester = Inr ([None, None, None], closed_tester)
   \<and> teardowns closed_tester = 1
   \<and> close_step\<^sup>*\<^sup>* (closing_init tester 2) two_callers_done
   \<and> callers two_callers_done = [Returned None, Returned None]
   \<and> engine two_callers_done = closed_tester
   \<and> teardowns (engine two_callers_done) \<le> 1"
proof -
  have inv: "engine_inv tester"
    by (simp add: tester_def NewTester_def engine_inv_New)
  obtain e1 where e1: "e1 = (if closeOnce tester then tester
                    else tester\<lparr>remote := map_option stop (remote tester), closeOnce := True\<rparr>)"
    and first: "Close tester = Inr (None, e1)"
    and again: "Close e1 = Inr (None, e1)"
    and td: "teardowns e1 = (if remote tester = None then 0 else 1)"
    and times: "\<forall>k. Close_times (Suc k) tester = Inr (replicate (Suc k) None, e1)"
    and conc: "\<forall>n s. close_step\<^sup>*\<^sup>* (closing_init tester n) s \<longrightarrow>
                 teardowns (engine s) \<le> teardowns e1"
    using Close_idempotent [OF inv] by blast
  have eq: "e1 = closed_tester"
    using e1 tester_open by (simp add: closed_tester_def stopped_sealer_def)
  have "Close_times (Suc (Suc (Suc 0))) tester = Inr (replicate (Suc (Suc (Suc 0))) None, e1)"
    using times by blast
  moreover have "replicate (Suc (Suc (Suc 0))) (None :: error option) = [None, None, None]"
    by simp
  ultimately have "Close_times (Suc (Suc (Suc 0))) tester = Inr ([None, None, None], e1)"
    by (simp only:)
  then have three: "Close_times 3 tester = Inr ([None, None, None], e1)"
    by (simp only: numeral_3_eq_3)
  have one: "teardowns e1 = 1"
    using td tester_open by simp
  have "teardowns (engine two_callers_done) \<le> teardowns e1"
    using conc two_callers_run by blast
  with inv first again three one two_callers_run show ?thesis
    unfolding eq by (simp add: two_callers_done_def)
qed

section \<open>Properties of Hashrate\<close>

lemma three_miners_eval:
  "three_miners = (startRemoteSealer [] False)
     \<lparr>rates := [\<lparr>minerID = miner_a, rate = 100, lastRefreshed = 0\<rparr>,
                \<lparr>minerID = miner_b, rate = 200, lastRefreshed = 0\<rparr>,
                \<lparr>minerID = miner_c, rate = 300, lastRefreshed = 0\<rparr>]\<rparr>"
  by (simp add: three_miners_def submitHashrate_def startRemoteSealer_def miner_a_def
      miner_b_def miner_c_def)

lemma three_miners_aggregate: "aggregateHashrate 10 5 three_miners = (600, three_miners)"
  by (simp add: three_miners_eval aggregateHashrate_def startRemoteSealer_def)

text \<open>
  C2, amended: for an engine with a meter and a remote sealer, \<^verbatim>\<open>Hashrate()\<close> returns the
  meter's rate plus the remote sealer's aggregate (the floating point sum of the rate and
  the converted aggregate) in normal and test mode while the sealer runs, and the meter's
  rate alone in shared, fake and full fake mode and whenever the sealer has exited.
\<close>

theorem Hashrate_by_mode:
  assumes "hashrate e = Some mt" "remote e = Some r"
  shows "Hashrate fadd conv rate1 expiry now e =
     (if (PowMode (config e) = ModeNormal \<or> PowMode (config e) = ModeTest) \<and> \<not> exited r
      then Inr (fadd rate1 (conv (fst (aggregateHashrate expiry now r))),
                e\<lparr>remote := Some (snd (aggregateHashrate expiry now r))\<rparr>)
      else Inr (rate1, e))"
  using assms by (simp add: Hashrate_def split_beta Let_def)

theorem Hashrate_by_mode_witness:
  "hashrate reported_tester = Some StandardMeter \<and> remote reported_tester = Some three_miners
   \<and> Hashrate exact_add exact_conv (Some 0) 10 5 reported_tester
       = Inr (Some 600, reported_tester)"
proof -
  have m: "hashrate reported_tester = Some StandardMeter"
    by (simp add: reported_tester_def tester_def NewTester_def New_def)
  have r: "remote reported_tester = Some three_miners"
    by (simp add: reported_tester_def)
  have mode: "PowMode (config reported_tester) = ModeTest"
    by (simp add: reported_tester_def tester_def NewTester_def New_def)
  have live: "\<not> exited three_miners"
    by (simp add: three_miners_eval startRemoteSealer_def)
  have same: "reported_tester\<lparr>remote := Some three_miners\<rparr> = reported_tester"
    by (simp add: reported_tester_def)
  have sum: "exact_add (Some 0) (exact_conv 600) = Some 600"
    by (simp add: exact_add_def exact_conv_def)
  show ?thesis
    using Hashrate_by_mode [OF m r, of exact_add exact_conv "Some 0" 10 5] m r mode live same
      sum
    by (simp add: three_miners_aggregate)
qed

text \<open>
  C2 as stated fails in shared mode: an engine made by \<^verbatim>\<open>New\<close> in shared mode, whose
  meter reads 0 and whose running remote sealer aggregates 600, returns the 0 of the meter,
  not the sum 600.
\<close>

theorem Hashrate_shared_counterexample:
  "PowMode (config reported_shared) = ModeShared
   \<and> hashrate reported_shared = Some StandardMeter
   \<and> remote reported_shared = Some three_miners
   \<and> \<not> exited three_miners
   \<and> fst (aggregateHashrate 10 5 three_miners) = 600
   \<and> exact_add (Some 0) (exact_conv 600) = Some 600
   \<and> Hashrate exact_add exact_conv (Some 0) 10 5 reported_shared = Inr (Some 0, reported_shared)
   \<and> Hashrate exact_add exact_conv (Some 0) 10 5 reported_shared
       \<noteq> Inr (exact_add (Some 0) (exact_conv 600), reported_shared)"
proof -
  have live: "\<not> exited three_miners"
    by (simp add: three_miners_eval startRemoteSealer_def)
  have run: "Hashrate exact_add exact_conv (Some 0) 10 5 reported_shared
               = Inr (Some 0, reported_shared)"
    by (simp add: reported_shared_def New_def Hashrate_def)
  have sum: "exact_add (Some 0) (exact_conv 600) = Some 600"
    by (simp add: exact_add_def exact_conv_def)
  show ?thesis
    using live run sum by (simp add: three_miners_aggregate reported_shared_def New_def)
qed

section \<open>Properties of the remote sealer\<close>









lemma serve_keeps_empty:
  assumes "\<not> exited r" "latest r = None" "\<not> is_PushWork q" "q \<noteq> Stop"
  shows "\<not> exited (serve e r q) \<and> latest (serve e r q) = None"
  using assms
  by (cases q)
     (simp_all add: submitWork_def submitHashrate_def aggregateHashrate_def Let_def
        split: option.splits)

lemma serve_all_keeps_empty:
  assumes "\<not> exited r" "latest r = None" "\<forall>q \<in> set qs. \<not> is_PushWork q \<and> q \<noteq> Stop"
  shows "\<not> exited (serve_all e r qs) \<and> latest (serve_all e r qs) = None"
  using assms unfolding serve_all_def
proof (induction qs arbitrary: r)
  case Nil
  then show ?case by simp
next
  case (Cons q qs)
  have "\<not> exited (serve e r q) \<and> latest (serve e r q) = None"
    using Cons.prems by (intro serve_keeps_empty) simp_all
  then show ?case using Cons.IH [of "serve e r q"] Cons.prems(3) by simp
qed

text \<open>
  C6, amended: on a remote sealer that has served no \<open>pushWork\<close> and has not been
  stopped, \<open>currentWork\<close> fails with the no-work error.
\<close>

theorem currentWork_empty:
  assumes "\<forall>q \<in> set qs. \<not> is_PushWork q \<and> q \<noteq> Stop"
  shows "currentWork (serve_all e (startRemoteSealer notify nv) qs) = Inl errNoMiningWork"
proof -
  have "\<not> exited (serve_all e (startRemoteSealer notify nv) qs)
        \<and> latest (serve_all e (startRemoteSealer notify nv) qs) = None"
    using assms by (intro serve_all_keeps_empty) (simp_all add: startRemoteSealer_def)
  then show ?thesis by (simp add: currentWork_def)
qed

theorem currentWork_empty_witness:
  "\<not> is_PushWork CurrentWork \<and> CurrentWork \<noteq> Stop
   \<and> \<not> is_PushWork (SubmitHashrate 3 [0x0a] 100) \<and> SubmitHashrate 3 [0x0a] 100 \<noteq> Stop
   \<and> \<not> is_PushWork (SubmitWork 0 [] []) \<and> SubmitWork 0 [] [] \<noteq> Stop
   \<and> \<not> is_PushWork (AggregateHashrate 10 4) \<and> AggregateHashrate 10 4 \<noteq> Stop
   \<and> currentWork (serve_all tester (startRemoteSealer [] False)
        [CurrentWork, SubmitHashrate 3 [0x0a] 100, SubmitWork 0 [] [], AggregateHashrate 10 4])
      = Inl errNoMiningWork"
proof -
  have h: "\<forall>q \<in> set [CurrentWork, SubmitHashrate 3 [0x0a] 100, SubmitWork 0 [] [],
                      AggregateHashrate 10 4]. \<not> is_PushWork q \<and> q \<noteq> Stop"
    by simp
  have "currentWork (serve_all tester (startRemoteSealer [] False)
        [CurrentWork, SubmitHashrate 3 [0x0a] 100, SubmitWork 0 [] [], AggregateHashrate 10 4])
      = Inl errNoMiningWork"
    by (rule currentWork_empty [OF h])
  then show ?thesis
    by simp
qed

text \<open>
  C6 as stated fails on a closed engine: the tester closed before any work was pushed
  answers with the stopped error, as the closed remote sealer test expects.
\<close>

theorem currentWork_stopped_counterexample:
  "Close tester = Inr (None, tester\<lparr>remote := Some stopped_sealer, closeOnce := True\<rparr>)
   \<and> \<not> is_PushWork Stop
   \<and> serve_all tester (startRemoteSealer [] False) [Stop] = stopped_sealer
   \<and> latest stopped_sealer = None
   \<and> currentWork stopped_sealer = Inl errEthashStopped
   \<and> currentWork stopped_sealer \<noteq> Inl errNoMiningWork"
  by (simp add: tester_def NewTester_def New_def Close_def stopped_sealer_def stop_def
      request_exit_def loop_exit_def startRemoteSealer_def serve_all_def currentWork_def)

text \<open>
  C4: after two pushes for the same block number with different sealing hashes,
  \<open>currentWork\<close> returns the second package, not the first; a solution of the first
  package that verifies is accepted and delivered, and after that every submission for
  that sealing hash is refused, while the current work stays the second package.
\<close>

theorem superseded_work_solved_once:
  assumes "\<not> exited r"
    and "Number h2 = Number h1"
    and "SealHash h2 \<noteq> SealHash h1"
    and "VerifySeal e (h1\<lparr>Nonce := nonce, MixDigest := mix\<rparr>) = None"
  shows "currentWork (pushWork h2 (pushWork h1 r)) = Inr (package h2)
       \<and> package h2 \<noteq> package h1
       \<and> current (pushWork h2 (pushWork h1 r)) (Number h1) = Some h2
       \<and> (\<exists>r3. submitWork e nonce (SealHash h1) mix (pushWork h2 (pushWork h1 r)) = (True, r3)
             \<and> results r3 = results r @ [h1\<lparr>Nonce := nonce, MixDigest := mix\<rparr>]
             \<and> currentWork r3 = Inr (package h2)
             \<and> (\<forall>nonce' mix'. fst (submitWork e nonce' (SealHash h1) mix' r3) = False))"
proof -
  let ?r2 = "pushWork h2 (pushWork h1 r)"
  let ?sealed = "h1\<lparr>Nonce := nonce, MixDigest := mix\<rparr>"
  let ?r3 = "?r2\<lparr>solvable := (solvable ?r2)(SealHash h1 := None),
                  results := results ?r2 @ [?sealed]\<rparr>"
  have live: "\<not> exited ?r2"
    using assms(1) by (simp add: pushWork_def)
  have cur: "currentWork ?r2 = Inr (package h2)"
    using assms(1) by (simp add: pushWork_def currentWork_def)
  have differ: "package h2 \<noteq> package h1"
    using assms(3) by (simp add: package_def)
  have per_number: "current ?r2 (Number h1) = Some h2"
    using assms(1,2) by (simp add: pushWork_def)
  have old: "solvable ?r2 (SealHash h1) = Some h1"
    using assms(1,3) by (simp add: pushWork_def)
  have sub: "submitWork e nonce (SealHash h1) mix ?r2 = (True, ?r3)"
    using live old assms(4) by (simp add: submitWork_def)
  have res: "results ?r3 = results r @ [?sealed]"
    using assms(1) by (simp add: pushWork_def)
  have cur3: "currentWork ?r3 = Inr (package h2)"
    using assms(1) by (simp add: pushWork_def currentWork_def)
  have again: "\<forall>nonce' mix'. fst (submitWork e nonce' (SealHash h1) mix' ?r3) = False"
    by (simp add: submitWork_def)
  show ?thesis
    using cur differ per_number sub res cur3 again by blast
qed

theorem superseded_work_solved_once_witness:
  "\<not> exited (startRemoteSealer [] False)
   \<and> Number header_1000 = Number header_100
   \<and> SealHash header_1000 \<noteq> SealHash header_100
   \<and> VerifySeal fake_engine (header_100\<lparr>Nonce := 5, MixDigest := replicate 32 0\<rparr>) = None
   \<and> currentWork (pushWork header_1000 (pushWork header_100 (startRemoteSealer [] False)))
       = Inr (package header_1000)
   \<and> (\<exists>r3. submitWork fake_engine 5 (SealHash header_100) (replicate 32 0)
              (pushWork header_1000 (pushWork header_100 (startRemoteSealer [] False)))
            = (True, r3)
         \<and> fst (submitWork fake_engine 5 (SealHash header_100) (replicate 32 0) r3) = False)"
proof -
  have a: "\<not> exited (startRemoteSealer [] False)"
    by (simp add: startRemoteSealer_def)
  have b: "Number header_1000 = Number header_100"
    by (simp add: header_100_def header_1000_def)
  have c: "SealHash header_1000 \<noteq> SealHash header_100"
    by (simp add: header_100_def header_1000_def)
  have d: "VerifySeal fake_engine (header_100\<lparr>Nonce := 5, MixDigest := replicate 32 0\<rparr>) = None"
    by (simp add: VerifySeal_def fake_engine_def New_def zero_Config_def header_100_def)
  show ?thesis
    using superseded_work_solved_once [OF a b c d] a b c d by blast
qed

section \<open>Properties of the hashing function\<close>

lemma frankomoto_unfold:
  "32 \<le> length hash \<Longrightarrow>
   frankomoto hash nonce =
     (drop 32 (Keccak512 (take 32 hash @ PutUint64 nonce)),
      Keccak256 (Keccak512 (take 32 hash @ PutUint64 nonce)))"
  by (simp add: frankomoto_def Let_def frankomoto_buffer)

text \<open>
  C9: for a hash of at least 32 bytes, \<open>frankomoto\<close> returns bytes 32 to 63 of
  \<open>s\<close> and the 32-byte hash of \<open>s\<close>, where \<open>s\<close> is the 64-byte hash of the first 32
  bytes of the hash followed by the nonce, little-endian; both parts are 32 bytes long, and
  only the first 32 bytes of the hash matter.
\<close>

theorem frankomoto_two_hashes:
  assumes "32 \<le> length hash"
  shows "frankomoto hash nonce =
           (drop 32 (Keccak512 (take 32 hash @ PutUint64 nonce)),
            Keccak256 (Keccak512 (take 32 hash @ PutUint64 nonce)))
       \<and> fst (frankomoto hash nonce)
           = take 32 (drop 32 (Keccak512 (take 32 hash @ PutUint64 nonce)))
       \<and> length (fst (frankomoto hash nonce)) = 32
       \<and> length (snd (frankomoto hash nonce)) = 32
       \<and> (\<forall>hash'. 32 \<le> length hash' \<and> take 32 hash' = take 32 hash
             \<longrightarrow> frankomoto hash' nonce = frankomoto hash nonce)"
proof -
  have eq: "\<And>h. 32 \<le> length h \<Longrightarrow> frankomoto h nonce =
           (drop 32 (Keccak512 (take 32 h @ PutUint64 nonce)),
            Keccak256 (Keccak512 (take 32 h @ PutUint64 nonce)))"
    by (rule frankomoto_unfold)
  have "\<forall>hash'. 32 \<le> length hash' \<and> take 32 hash' = take 32 hash
             \<longrightarrow> frankomoto hash' nonce = frankomoto hash nonce"
    using eq assms by simp
  then show ?thesis
    using eq [OF assms] by (simp add: length_Keccak512 length_Keccak256)
qed

theorem frankomoto_two_hashes_witness:
  "32 \<le> length (test_hash @ [0xff])
   \<and> length (fst (frankomoto (test_hash @ [0xff]) 0)) = 32
   \<and> length (snd (frankomoto (test_hash @ [0xff]) 0)) = 32
   \<and> frankomoto test_hash 0 = frankomoto (test_hash @ [0xff]) 0"
proof -
  have l: "32 \<le> length (test_hash @ [0xff])"
    by (simp add: test_hash_def)
  have "32 \<le> length test_hash \<and> take 32 test_hash = take 32 (test_hash @ [0xff])"
    by (simp add: test_hash_def)
  then show ?thesis
    using frankomoto_two_hashes [OF l, of 0] l by blast
qed

section \<open>The hashing function against the algorithm of the spec\<close>

subsection \<open>Evaluating the hashes\<close>

text \<open>
  The hashes of concrete inputs are computed by rewriting, the 24 rounds of a permutation
  in four steps. Rotations and products are cut to the word length, so that the numerals
  stay short.
\<close>

lemma upt_0_2: "[0..<2] = [0, 1]"
  by (simp add: upt_rec)

lemma upt_0_4: "[0..<4] = [0, 1, 2, 3]"
  by (simp add: upt_rec)

lemma upt_0_5: "[0..<5] = [0, 1, 2, 3, 4]"
  by (simp add: upt_rec)

lemma upt_0_8: "[0..<8] = [0, 1, 2, 3, 4, 5, 6, 7]"
  by (simp add: upt_rec)

lemma upt_0_25:
  "[0..<25] = [0, 1, 2, 3, 4, 5, 6, 7, 8, 9, 10, 11, 12, 13, 14, 15, 16, 17, 18, 19, 20, 21,
               22, 23, 24]"
  by (simp add: upt_rec)

lemma upt_0_32:
  "[0..<32] = [0, 1, 2, 3, 4, 5, 6, 7, 8, 9, 10, 11, 12, 13, 14, 15, 16, 17, 18, 19, 20, 21,
               22, 23, 24, 25, 26, 27, 28, 29, 30, 31]"
  by (simp add: upt_rec)

lemma rotl64_eval: "rotl64 x n = take_bit 64 (push_bit n x) OR drop_bit (64 - n) x"
  by (simp add: rotl64_def take_bit_word_eq_self)

lemma fnv_eval: "fnv a b = take_bit 32 (a * 0x01000193) XOR b"
  by (simp add: fnv_def take_bit_word_eq_self)

lemma index_rows_eval: "index_rows i = [i, i, i, i, i, i, i, i, i, i, i, i, i, i, i, i]"
  by (simp add: index_rows_def hashWords_def numeral_eq_Suc)

lemmas round_eval =
  keccak_round_def iota_def chi_def rho_pi_def rho_pi_table_def theta_def Let_def rotl64_eval
  upt_0_5 upt_0_25

lemma replicate_numeral_eval: "replicate (numeral k) x = x # replicate (pred_numeral k) x"
  by (simp add: numeral_eq_Suc)

lemmas absorb_eval =
  keccak_pad_def absorb_def lane_of_bytes_def PutUint64_def Let_def upt_0_8 upt_0_25
  replicate_numeral_eval

lemmas access_eval =
  spec_access_def Let_def fnv_eval index_rows_eval mixBytes_def hashBytes_def upt_0_2

lemma seed_absorb:
  "foldl absorb (replicate 25 0) (chunks 72 (keccak_pad 72 (test_hash @ PutUint64 0)))
   = keccak_f
     [0x9D686E38C09C14C9, 0x9A165D3D2F1C9A78, 0x41740ED38E21A661, 0x1F3DEF42E436C74D,
     0x0000000000000000, 0x0000000000000001, 0x0000000000000000, 0x0000000000000000,
     0x8000000000000000, 0x0000000000000000, 0x0000000000000000, 0x0000000000000000,
     0x0000000000000000, 0x0000000000000000, 0x0000000000000000, 0x0000000000000000,
     0x0000000000000000, 0x0000000000000000, 0x0000000000000000, 0x0000000000000000,
     0x0000000000000000, 0x0000000000000000, 0x0000000000000000, 0x0000000000000000,
     0x0000000000000000]"
  by (simp add: absorb_eval test_hash_def)

lemma seed_rounds_1:
  "foldl keccak_round
     [0x9D686E38C09C14C9, 0x9A165D3D2F1C9A78, 0x41740ED38E21A661, 0x1F3DEF42E436C74D,
     0x0000000000000000, 0x0000000000000001, 0x0000000000000000, 0x0000000000000000,
     0x8000000000000000, 0x0000000000000000, 0x0000000000000000, 0x0000000000000000,
     0x0000000000000000, 0x0000000000000000, 0x0000000000000000, 0x0000000000000000,
     0x0000000000000000, 0x0000000000000000, 0x0000000000000000, 0x0000000000000000,
     0x0000000000000000, 0x0000000000000000, 0x0000000000000000, 0x0000000000000000,
     0x0000000000000000]
     [0x0000000000000001, 0x0000000000008082, 0x800000000000808A, 0x8000000080008000,
     0x000000000000808B, 0x0000000080000001]
   = [0x4C1F5DD24A339B56, 0x7BD685CC5A57D495, 0x02DB93C830394241, 0x7A38206CF75F0B19,
     0x581EE758914E9E6F, 0xE0B07F68094485F0, 0x2307AF61A449A06E, 0x074A15E703403FA7,
     0xD2DAC19D18A4465D, 0x0B3FD1A0AC6351D8, 0x6B725F4568B78D93, 0xCE47584635CF03FE,
     0x4FED694EF8F7DE3F, 0xA6F5574E1677CC7B, 0x03A99975E8C9A974, 0xD83621BA893FFE67,
     0xAA0E5EF602D4005A, 0x1BEA4B6CAF8EAB76, 0x0DB5DD660CCEE835, 0xC0960F54065D266C,
     0xE8DF97419BE35146, 0x0180434E896AA044, 0xB172A94A79A12F48, 0x82786751FA1FB3D5,
     0x2EAC626D032F72B8]"
  by (simp add: round_eval)

lemma seed_rounds_2:
  "foldl keccak_round
     [0x4C1F5DD24A339B56, 0x7BD685CC5A57D495, 0x02DB93C830394241, 0x7A38206CF75F0B19,
     0x581EE758914E9E6F, 0xE0B07F68094485F0, 0x2307AF61A449A06E, 0x074A15E703403FA7,
     0xD2DAC19D18A4465D, 0x0B3FD1A0AC6351D8, 0x6B725F4568B78D93, 0xCE47584635CF03FE,
     0x4FED694EF8F7DE3F, 0xA6F5574E1677CC7B, 0x03A99975E8C9A974, 0xD83621BA893FFE67,
     0xAA0E5EF602D4005A, 0x1BEA4B6CAF8EAB76, 0x0DB5DD660CCEE835, 0xC0960F54065D266C,
     0xE8DF97419BE35146, 0x0180434E896AA044, 0xB172A94A79A12F48, 0x82786751FA1FB3D5,
     0x2EAC626D032F72B8]
     [0x8000000080008081, 0x8000000000008009, 0x000000000000008A, 0x0000000000000088,
     0x0000000080008009, 0x000000008000000A]
   = [0x5ED8E97C899F48F2, 0xB8E80D8322E914BF, 0xC8BF0EC0758C4931, 0x7B0615ABFBA15ADD,
     0xD4C3E65366CD5270, 0xA9CB19FB9C82B416, 0xC05FDD263F8B8089, 0xD1F5C73471C8079F,
     0x75C7BD7D21DC5B4E, 0x07C61DB1E2D62F8F, 0xCAE1B4EF9D9692B5, 0x7488F58388486DD2,
     0xFAC32FBFAE487DA6, 0x38DD627441978D31, 0x5624FCFB29C3AAAF, 0xA83181DF1FDC04BD,
     0x12BBC72415C6EB25, 0xE047A04B15A4961F, 0x572AA1D370D74AEE, 0x400369E01CBFA6CF,
     0xB787835F089F0E7F, 0x065A367012CB1E39, 0x3E5914FE1E6536D5, 0x15D8664F8ADB33C0,
     0x47F23E7EA153B68C]"
  by (simp add: round_eval)

lemma seed_rounds_3:
  "foldl keccak_round
     [0x5ED8E97C899F48F2, 0xB8E80D8322E914BF, 0xC8BF0EC0758C4931, 0x7B0615ABFBA15ADD,
     0xD4C3E65366CD5270, 0xA9CB19FB9C82B416, 0xC05FDD263F8B8089, 0xD1F5C73471C8079F,
     0x75C7BD7D21DC5B4E, 0x07C61DB1E2D62F8F, 0xCAE1B4EF9D9692B5, 0x7488F58388486DD2,
     0xFAC32FBFAE487DA6, 0x38DD627441978D31, 0x5624FCFB29C3AAAF, 0xA83181DF1FDC04BD,
     0x12BBC72415C6EB25, 0xE047A04B15A4961F, 0x572AA1D370D74AEE, 0x400369E01CBFA6CF,
     0xB787835F089F0E7F, 0x065A367012CB1E39, 0x3E5914FE1E6536D5, 0x15D8664F8ADB33C0,
     0x47F23E7EA153B68C]
     [0x000000008000808B, 0x800000000000008B, 0x8000000000008089, 0x8000000000008003,
     0x8000000000008002, 0x8000000000000080]
   = [0x7C82F2C6426DC3BA, 0x3076F0A342296420, 0xF2F8025D66975949, 0xF2B696BE4D9936FD,
     0x9789D5E05B6B0F55, 0xA94D342768E0069D, 0xA14D94121BB12F58, 0xA2406462847D08C8,
     0x8977AE02C4990BEB, 0xFA4D79292F91F993, 0xF27297AB46AA09C3, 0x011558E96F85E8BD,
     0xEDB34ECC8AF3E4E3, 0xF0C8ED18240C6463, 0xE06F7B0A0F986D1E, 0x5A38D58EE248C05F,
     0x2B4C9BEFD7BE4544, 0xBC5B6D58FC47D76F, 0xE41447D434592E14, 0xFDDB67C1A5016DC9,
     0xB024790C34D6A517, 0x0C2BEBF1D310EFEC, 0x13F31FA79B9DB995, 0xD794FBB63AEAADE4,
     0x31D2DEFF5B38F557]"
  by (simp add: round_eval)

lemma seed_rounds_4:
  "foldl keccak_round
     [0x7C82F2C6426DC3BA, 0x3076F0A342296420, 0xF2F8025D66975949, 0xF2B696BE4D9936FD,
     0x9789D5E05B6B0F55, 0xA94D342768E0069D, 0xA14D94121BB12F58, 0xA2406462847D08C8,
     0x8977AE02C4990BEB, 0xFA4D79292F91F993, 0xF27297AB46AA09C3, 0x011558E96F85E8BD,
     0xEDB34ECC8AF3E4E3, 0xF0C8ED18240C6463, 0xE06F7B0A0F986D1E, 0x5A38D58EE248C05F,
     0x2B4C9BEFD7BE4544, 0xBC5B6D58FC47D76F, 0xE41447D434592E14, 0xFDDB67C1A5016DC9,
     0xB024790C34D6A517, 0x0C2BEBF1D310EFEC, 0x13F31FA79B9DB995, 0xD794FBB63AEAADE4,
     0x31D2DEFF5B38F557]
     [0x000000000000800A, 0x800000008000000A, 0x8000000080008081, 0x8000000000008080,
     0x0000000080000001, 0x8000000080008008]
   = [0x31B7568B7808C583, 0x8B7A0E4D4F4C1B03, 0x6A43BBC5F0E9664D, 0x36820F7FFC04F405,
     0x15574D186236765C, 0x8AA6C372465CF87E, 0x5AF53355E3D26FCD, 0x06B52380233CA1BA,
     0x710C52A7F1B039FB, 0x5B325F8B067FF8DC, 0x7CFB0D4DF3982C7B, 0x3C6D43231FE0973F,
     0x5D2D1934EA87F9C0, 0x97F6683A840AD9DF, 0x3BF0A2B782D75870, 0x8D5040F50C333F30,
     0x730CA5033D73ACA4, 0x5FEC5309B8A46324, 0xF69009A452555375, 0xB3C51EBFFB8C725B,
     0x8202473691393EFF, 0x012EA797708782DD, 0xD47B6BF424D9BACD, 0xD025B85B508377EB,
     0x4FC319979726B962]"
  by (simp add: round_eval)

lemma seed_permutation:
  "keccak_f
     [0x9D686E38C09C14C9, 0x9A165D3D2F1C9A78, 0x41740ED38E21A661, 0x1F3DEF42E436C74D,
     0x0000000000000000, 0x0000000000000001, 0x0000000000000000, 0x0000000000000000,
     0x8000000000000000, 0x0000000000000000, 0x0000000000000000, 0x0000000000000000,
     0x0000000000000000, 0x0000000000000000, 0x0000000000000000, 0x0000000000000000,
     0x0000000000000000, 0x0000000000000000, 0x0000000000000000, 0x0000000000000000,
     0x0000000000000000, 0x0000000000000000, 0x0000000000000000, 0x0000000000000000,
     0x0000000000000000]
   = [0x31B7568B7808C583, 0x8B7A0E4D4F4C1B03, 0x6A43BBC5F0E9664D, 0x36820F7FFC04F405,
     0x15574D186236765C, 0x8AA6C372465CF87E, 0x5AF53355E3D26FCD, 0x06B52380233CA1BA,
     0x710C52A7F1B039FB, 0x5B325F8B067FF8DC, 0x7CFB0D4DF3982C7B, 0x3C6D43231FE0973F,
     0x5D2D1934EA87F9C0, 0x97F6683A840AD9DF, 0x3BF0A2B782D75870, 0x8D5040F50C333F30,
     0x730CA5033D73ACA4, 0x5FEC5309B8A46324, 0xF69009A452555375, 0xB3C51EBFFB8C725B,
     0x8202473691393EFF, 0x012EA797708782DD, 0xD47B6BF424D9BACD, 0xD025B85B508377EB,
     0x4FC319979726B962]"
proof -
  have split: "round_constants =
     [0x0000000000000001, 0x0000000000008082, 0x800000000000808A, 0x8000000080008000,
     0x000000000000808B, 0x0000000080000001]
     @ [0x8000000080008081, 0x8000000000008009, 0x000000000000008A, 0x0000000000000088,
     0x0000000080008009, 0x000000008000000A]
     @ [0x000000008000808B, 0x800000000000008B, 0x8000000000008089, 0x8000000000008003,
     0x8000000000008002, 0x8000000000000080]
     @ [0x000000000000800A, 0x800000008000000A, 0x8000000080008081, 0x8000000000008080,
     0x0000000080000001, 0x8000000080008008]"
    by (simp add: round_constants_def)
  show ?thesis
    by (simp only: keccak_f_def split foldl_append seed_rounds_1 seed_rounds_2 seed_rounds_3
        seed_rounds_4)
qed

lemma seed_value: "Keccak512 (test_hash @ PutUint64 0) = test_seed"
  unfolding Keccak512_def keccak_def seed_absorb seed_permutation
  by (simp add: PutUint64_def upt_0_8 test_seed_def)

lemma tile_value:
  "spec_tile test_seed
   = [0x7808C583, 0x31B7568B, 0x4F4C1B03, 0x8B7A0E4D, 0xF0E9664D, 0x6A43BBC5, 0xFC04F405,
     0x36820F7F, 0x6236765C, 0x15574D18, 0x465CF87E, 0x8AA6C372, 0xE3D26FCD, 0x5AF53355,
     0x233CA1BA, 0x06B52380, 0x7808C583, 0x31B7568B, 0x4F4C1B03, 0x8B7A0E4D, 0xF0E9664D,
     0x6A43BBC5, 0xFC04F405, 0x36820F7F, 0x6236765C, 0x15574D18, 0x465CF87E, 0x8AA6C372,
     0xE3D26FCD, 0x5AF53355, 0x233CA1BA, 0x06B52380]"
  by (simp add: spec_tile_def Uint32_def test_seed_def hashWords_def mixBytes_def upt_0_32)

lemma head_value: "Uint32 test_seed = 0x7808C583"
  by (simp add: Uint32_def test_seed_def)

lemma mix_accesses_1:
  "foldl (spec_access 8 index_rows 0x7808C583)
     [0x7808C583, 0x31B7568B, 0x4F4C1B03, 0x8B7A0E4D, 0xF0E9664D, 0x6A43BBC5, 0xFC04F405,
     0x36820F7F, 0x6236765C, 0x15574D18, 0x465CF87E, 0x8AA6C372, 0xE3D26FCD, 0x5AF53355,
     0x233CA1BA, 0x06B52380, 0x7808C583, 0x31B7568B, 0x4F4C1B03, 0x8B7A0E4D, 0xF0E9664D,
     0x6A43BBC5, 0xFC04F405, 0x36820F7F, 0x6236765C, 0x15574D18, 0x465CF87E, 0x8AA6C372,
     0xE3D26FCD, 0x5AF53355, 0x233CA1BA, 0x06B52380]
     [0, 1, 2, 3, 4, 5, 6, 7, 8, 9, 10, 11, 12, 13, 14, 15]
   = [0xFE47D1FF, 0x0FF1F587, 0x3C4B877F, 0xE06F95D1, 0x7464EDD1, 0xCC8A50C9, 0xEBEA1909,
     0xB92B6B93, 0x01BEB124, 0xBD65B508, 0xA619EEEE, 0x357492CA, 0xD8E35751, 0xC880CC59,
     0xACCED252, 0xDD65EFF0, 0x86AC5E8B, 0x19FD9533, 0xC4B0140B, 0xD1D40695, 0x65C95E95,
     0xE7D08C2D, 0x0730546D, 0x7163F3EF, 0xF32ABDB0, 0xC6FA0C14, 0xA09F9B62, 0xE2FD3B3E,
     0xCA47C815, 0xE3C707BD, 0x63E54FE6, 0xD2AB713C]"
  by (simp add: access_eval)

lemma mix_accesses_2:
  "foldl (spec_access 8 index_rows 0x7808C583)
     [0xFE47D1FF, 0x0FF1F587, 0x3C4B877F, 0xE06F95D1, 0x7464EDD1, 0xCC8A50C9, 0xEBEA1909,
     0xB92B6B93, 0x01BEB124, 0xBD65B508, 0xA619EEEE, 0x357492CA, 0xD8E35751, 0xC880CC59,
     0xACCED252, 0xDD65EFF0, 0x86AC5E8B, 0x19FD9533, 0xC4B0140B, 0xD1D40695, 0x65C95E95,
     0xE7D08C2D, 0x0730546D, 0x7163F3EF, 0xF32ABDB0, 0xC6FA0C14, 0xA09F9B62, 0xE2FD3B3E,
     0xCA47C815, 0xE3C707BD, 0x63E54FE6, 0xD2AB713C]
     [16, 17, 18, 19, 20, 21, 22, 23, 24, 25, 26, 27, 28, 29, 30, 31]
   = [0x22A17B3B, 0x9D3952F3, 0x483D90BB, 0xB3978095, 0x2392D895, 0xB879275D, 0x823B7F9D,
     0x0B43F897, 0x850870BC, 0xA4C67018, 0x405FC55E, 0xC1FCF732, 0x59BEA215, 0x08FDA6ED,
     0x5D268B0A, 0xE5120010, 0x9635AD5B, 0xCC207A33, 0xBBD1C2DB, 0x8668A725, 0xF663FF25,
     0x3418FDCD, 0xFDDB560D, 0x8EAAA647, 0x3D7F8FAC, 0x14A40778, 0xB1C39AEE, 0xCDB183A2,
     0x2C8FC8A5, 0x849D7D5D, 0xD801761A, 0x7D4EF7B0]"
  by (simp add: access_eval)

lemma mix_accesses_3:
  "foldl (spec_access 8 index_rows 0x7808C583)
     [0x22A17B3B, 0x9D3952F3, 0x483D90BB, 0xB3978095, 0x2392D895, 0xB879275D, 0x823B7F9D,
     0x0B43F897, 0x850870BC, 0xA4C67018, 0x405FC55E, 0xC1FCF732, 0x59BEA215, 0x08FDA6ED,
     0x5D268B0A, 0xE5120010, 0x9635AD5B, 0xCC207A33, 0xBBD1C2DB, 0x8668A725, 0xF663FF25,
     0x3418FDCD, 0xFDDB560D, 0x8EAAA647, 0x3D7F8FAC, 0x14A40778, 0xB1C39AEE, 0xCDB183A2,
     0x2C8FC8A5, 0x849D7D5D, 0xD801761A, 0x7D4EF7B0]
     [32, 33, 34, 35, 36, 37, 38, 39, 40, 41, 42, 43, 44, 45, 46, 47]
   = [0xEC96A637, 0x1E3E9B6F, 0x60A31BB7, 0x2AB0E999, 0x84324199, 0x009F12E1, 0x4A87FB21,
     0x81C2A16B, 0xFA540384, 0x09639808, 0xE079B3CE, 0x6DDF368A, 0x22236B19, 0x533A9671,
     0x591DAFA2, 0x222B1080, 0xE2174003, 0xE5029F3B, 0x5623B583, 0xF7D70F8D, 0x5158678D,
     0x7A4DD615, 0xC436BE55, 0x2FB8B757, 0xFF04CB00, 0x503A1E74, 0x81FBB9D2, 0x6F60676E,
     0xEF49910D, 0xCCE959A5, 0x3BD7FC46, 0x3A8AB16C]"
  by (simp add: access_eval)

lemma mix_accesses_4:
  "foldl (spec_access 8 index_rows 0x7808C583)
     [0xEC96A637, 0x1E3E9B6F, 0x60A31BB7, 0x2AB0E999, 0x84324199, 0x009F12E1, 0x4A87FB21,
     0x81C2A16B, 0xFA540384, 0x09639808, 0xE079B3CE, 0x6DDF368A, 0x22236B19, 0x533A9671,
     0x591DAFA2, 0x222B1080, 0xE2174003, 0xE5029F3B, 0x5623B583, 0xF7D70F8D, 0x5158678D,
     0x7A4DD615, 0xC436BE55, 0x2FB8B757, 0xFF04CB00, 0x503A1E74, 0x81FBB9D2, 0x6F60676E,
     0xEF49910D, 0xCCE959A5, 0x3BD7FC46, 0x3A8AB16C]
     [48, 49, 50, 51, 52, 53, 54, 55, 56, 57, 58, 59, 60, 61, 62, 63]
   = [0xD3538FA3, 0xED6580AB, 0x62A86523, 0xCBCF942D, 0x7C56EC2D, 0xB1D861A5, 0x4AABD9E5,
     0xA0CC219F, 0x3EE71B1C, 0x8E831318, 0x304A823E, 0x71780AF2, 0xCE2575AD, 0xA853E935,
     0x14FF5C5A, 0x48D864A0, 0x9B527903, 0x15857A0B, 0x2AA74E83, 0xC797192D, 0x781E712D,
     0xEB3556A5, 0x8408CEE5, 0x0937BADF, 0xF60F90FC, 0x7F5D71D8, 0x436C355E, 0x44601BD2,
     0xC9ECFAAD, 0xE1B0DE35, 0xAE47FA7A, 0xCCA6A3E0]"
  by (simp add: access_eval)

lemma mix_value:
  "foldl (spec_access 8 index_rows (Uint32 test_seed)) (spec_tile test_seed) [0..<loopAccesses]
   = [0xD3538FA3, 0xED6580AB, 0x62A86523, 0xCBCF942D, 0x7C56EC2D, 0xB1D861A5, 0x4AABD9E5,
     0xA0CC219F, 0x3EE71B1C, 0x8E831318, 0x304A823E, 0x71780AF2, 0xCE2575AD, 0xA853E935,
     0x14FF5C5A, 0x48D864A0, 0x9B527903, 0x15857A0B, 0x2AA74E83, 0xC797192D, 0x781E712D,
     0xEB3556A5, 0x8408CEE5, 0x0937BADF, 0xF60F90FC, 0x7F5D71D8, 0x436C355E, 0x44601BD2,
     0xC9ECFAAD, 0xE1B0DE35, 0xAE47FA7A, 0xCCA6A3E0]"
proof -
  have split: "[0..<loopAccesses] =
     [0, 1, 2, 3, 4, 5, 6, 7, 8, 9, 10, 11, 12, 13, 14, 15]
     @ [16, 17, 18, 19, 20, 21, 22, 23, 24, 25, 26, 27, 28, 29, 30, 31]
     @ [32, 33, 34, 35, 36, 37, 38, 39, 40, 41, 42, 43, 44, 45, 46, 47]
     @ [48, 49, 50, 51, 52, 53, 54, 55, 56, 57, 58, 59, 60, 61, 62, 63]"
    by (simp add: loopAccesses_def upt_rec)
  show ?thesis
    by (simp only: head_value tile_value split foldl_append mix_accesses_1 mix_accesses_2
        mix_accesses_3 mix_accesses_4)
qed

lemma compress_value:
  "spec_compress
     [0xD3538FA3, 0xED6580AB, 0x62A86523, 0xCBCF942D, 0x7C56EC2D, 0xB1D861A5, 0x4AABD9E5,
     0xA0CC219F, 0x3EE71B1C, 0x8E831318, 0x304A823E, 0x71780AF2, 0xCE2575AD, 0xA853E935,
     0x14FF5C5A, 0x48D864A0, 0x9B527903, 0x15857A0B, 0x2AA74E83, 0xC797192D, 0x781E712D,
     0xEB3556A5, 0x8408CEE5, 0x0937BADF, 0xF60F90FC, 0x7F5D71D8, 0x436C355E, 0x44601BD2,
     0xC9ECFAAD, 0xE1B0DE35, 0xAE47FA7A, 0xCCA6A3E0]
   = test_cmix"
  by (simp add: spec_compress_def PutUint32_def fnv_eval test_cmix_def upt_0_4 upt_0_8)

lemma digest_absorb:
  "foldl absorb (replicate 25 0) (chunks 136 (keccak_pad 136 (test_seed @ test_cmix)))
   = keccak_f
     [0x31B7568B7808C583, 0x8B7A0E4D4F4C1B03, 0x6A43BBC5F0E9664D, 0x36820F7FFC04F405,
     0x15574D186236765C, 0x8AA6C372465CF87E, 0x5AF53355E3D26FCD, 0x06B52380233CA1BA,
     0xDC91CFF6918A8EA2, 0x2521E8B4BE0A4BDC, 0x0628ABB64BFF4EC2, 0x0E829D94EAA1527C,
     0x0000000000000001, 0x0000000000000000, 0x0000000000000000, 0x0000000000000000,
     0x8000000000000000, 0x0000000000000000, 0x0000000000000000, 0x0000000000000000,
     0x0000000000000000, 0x0000000000000000, 0x0000000000000000, 0x0000000000000000,
     0x0000000000000000]"
  by (simp add: absorb_eval test_seed_def test_cmix_def)

lemma digest_rounds_1:
  "foldl keccak_round
     [0x31B7568B7808C583, 0x8B7A0E4D4F4C1B03, 0x6A43BBC5F0E9664D, 0x36820F7FFC04F405,
     0x15574D186236765C, 0x8AA6C372465CF87E, 0x5AF53355E3D26FCD, 0x06B52380233CA1BA,
     0xDC91CFF6918A8EA2, 0x2521E8B4BE0A4BDC, 0x0628ABB64BFF4EC2, 0x0E829D94EAA1527C,
     0x0000000000000001, 0x0000000000000000, 0x0000000000000000, 0x0000000000000000,
     0x8000000000000000, 0x0000000000000000, 0x0000000000000000, 0x0000000000000000,
     0x0000000000000000, 0x0000000000000000, 0x0000000000000000, 0x0000000000000000,
     0x0000000000000000]
     [0x0000000000000001, 0x0000000000008082, 0x800000000000808A, 0x8000000080008000,
     0x000000000000808B, 0x0000000080000001]
   = [0x4E783B5E42689EFB, 0x6F563C3E663394C0, 0xF4ABEF4FBDC0FCEF, 0xE48C81B996574A28,
     0xEDE4A9B0037C1649, 0x072B79713164A554, 0x1CEF801CEE0E3F26, 0x9DA3F4E8724E3498,
     0xEC50E94F5ACC201E, 0xEBB4CE6A680C78B0, 0x8521BDB45E2CBB44, 0x434120CCF6EDA9BF,
     0x68406CE2CDF062CF, 0x8DD28F84884B19BB, 0x80B40A63735175BA, 0x258FD9A9E22ADC38,
     0xC007B04B11D9676B, 0x156F1398BCDFD8EE, 0x0AC6B10409C69912, 0x55F08F8181CD8157,
     0x411350F743C92253, 0xC3940AF4286C8D88, 0xB394BB748C0FCF1C, 0x726901EA141EC975,
     0xD8F996EBE92EC9FE]"
  by (simp add: round_eval)

lemma digest_rounds_2:
  "foldl keccak_round
     [0x4E783B5E42689EFB, 0x6F563C3E663394C0, 0xF4ABEF4FBDC0FCEF, 0xE48C81B996574A28,
     0xEDE4A9B0037C1649, 0x072B79713164A554, 0x1CEF801CEE0E3F26, 0x9DA3F4E8724E3498,
     0xEC50E94F5ACC201E, 0xEBB4CE6A680C78B0, 0x8521BDB45E2CBB44, 0x434120CCF6EDA9BF,
     0x68406CE2CDF062CF, 0x8DD28F84884B19BB, 0x80B40A63735175BA, 0x258FD9A9E22ADC38,
     0xC007B04B11D9676B, 0x156F1398BCDFD8EE, 0x0AC6B10409C69912, 0x55F08F8181CD8157,
     0x411350F743C92253, 0xC3940AF4286C8D88, 0xB394BB748C0FCF1C, 0x726901EA141EC975,
     0xD8F996EBE92EC9FE]
     [0x8000000080008081, 0x8000000000008009, 0x000000000000008A, 0x0000000000000088,
     0x0000000080008009, 0x000000008000000A]
   = [0xA13E5FEB85F9A2D5, 0x94DD87B5CE796E30, 0x62AD1BC4990EC21A, 0xB5E5745C84283C55,
     0xED720590D4E91ABC, 0x21B6FC73BA20EEC6, 0x4118FD4A4601DCE3, 0x1E22A48986E6E5EC,
     0x78FA73FE35D35F33, 0x0D570B6C0692F60A, 0x209F1B306A44C547, 0xC5F6E910C7B268E3,
     0x5BFB58E5BFB857C3, 0x9D2EE937827C2046, 0x14FE5A416BD004FB, 0x9D2A5567BA8D6073,
     0x437A3251A2DC34D5, 0xA0FEC9395D317F23, 0xB0376012B59F3E08, 0xF4201DC44596EA3D,
     0x8AAE72E0980C11E3, 0xBCE098AD832670B1, 0xDDDDEB05A09AB37A, 0x8EC5EC628408D388,
     0x94A5EB34F1DB44E1]"
  by (simp add: round_eval)

lemma digest_rounds_3:
  "foldl keccak_round
     [0xA13E5FEB85F9A2D5, 0x94DD87B5CE796E30, 0x62AD1BC4990EC21A, 0xB5E5745C84283C55,
     0xED720590D4E91ABC, 0x21B6FC73BA20EEC6, 0x4118FD4A4601DCE3, 0x1E22A48986E6E5EC,
     0x78FA73FE35D35F33, 0x0D570B6C0692F60A, 0x209F1B306A44C547, 0xC5F6E910C7B268E3,
     0x5BFB58E5BFB857C3, 0x9D2EE937827C2046, 0x14FE5A416BD004FB, 0x9D2A5567BA8D6073,
     0x437A3251A2DC34D5, 0xA0FEC9395D317F23, 0xB0376012B59F3E08, 0xF4201DC44596EA3D,
     0x8AAE72E0980C11E3, 0xBCE098AD832670B1, 0xDDDDEB05A09AB37A, 0x8EC5EC628408D388,
     0x94A5EB34F1DB44E1]
     [0x000000008000808B, 0x800000000000008B, 0x8000000000008089, 0x8000000000008003,
     0x8000000000008002, 0x8000000000000080]
   = [0xF5EC7BCCB631A101, 0x8EC8349FB616FB6A, 0x61548E764AE16018, 0x9B8A49923BC97DF2,
     0xB1A3B0588E10E416, 0xD266FCDBDA4564A6, 0x91FAB4F4CAD66058, 0x58DB365EFD09DEE2,
     0xADA78764CC71FFBE, 0xAAD32D9B0C0FB9BC, 0x459A015165587759, 0x10E978CDE285D5D9,
     0x33F925A7994FF102, 0xFB8CB9BD7A1CDD56, 0x30424086AD21189D, 0xD610F7D33240DAF1,
     0x0CEE3908F99A6B87, 0x4998CE3C9D7196D9, 0x8C41BA88AD84E729, 0xF1DC335D12400CB4,
     0x42F0A97F47A4DDDC, 0xEDF442276F248DC8, 0xF97D1C349EE9A2B8, 0xAFEE54656EBE7228,
     0xDA05C1734A3E221A]"
  by (simp add: round_eval)

lemma digest_rounds_4:
  "foldl keccak_round
     [0xF5EC7BCCB631A101, 0x8EC8349FB616FB6A, 0x61548E764AE16018, 0x9B8A49923BC97DF2,
     0xB1A3B0588E10E416, 0xD266FCDBDA4564A6, 0x91FAB4F4CAD66058, 0x58DB365EFD09DEE2,
     0xADA78764CC71FFBE, 0xAAD32D9B0C0FB9BC, 0x459A015165587759, 0x10E978CDE285D5D9,
     0x33F925A7994FF102, 0xFB8CB9BD7A1CDD56, 0x30424086AD21189D, 0xD610F7D33240DAF1,
     0x0CEE3908F99A6B87, 0x4998CE3C9D7196D9, 0x8C41BA88AD84E729, 0xF1DC335D12400CB4,
     0x42F0A97F47A4DDDC, 0xEDF442276F248DC8, 0xF97D1C349EE9A2B8, 0xAFEE54656EBE7228,
     0xDA05C1734A3E221A]
     [0x000000000000800A, 0x800000008000000A, 0x8000000080008081, 0x8000000000008080,
     0x0000000080000001, 0x8000000080008008]
   = [0x8FB38C0441FB5E62, 0xD6D3EB177C17C4E8, 0x1B11149E2CB014BB, 0x03FBB026901F4862,
     0xAD79BC577CC63D4E, 0xBDC438B95A1CCC74, 0xB8390910EDF3490F, 0x6DD2F979D7ABF0C0,
     0x10FEA4065E6BB94F, 0x3A868BECFF048F51, 0xF4E5FC41AE9D2DDD, 0x8DCEDC309979578F,
     0x42EC50AF6423E029, 0x32F1747768A1140D, 0xFDFE2CD8D686F4B6, 0x52E5C558A1EC93D0,
     0x9D25193BFA7F6F75, 0xE0DB83A4F0C8B725, 0x7E4CF3F18A757100, 0xF302E841848D24B7,
     0x5197F728C3230086, 0xC29B2CBE60683C22, 0xF9AAF7C15FDEA609, 0xCA3909B321E93A64,
     0x5B4D83EC539C76E8]"
  by (simp add: round_eval)

lemma digest_permutation:
  "keccak_f
     [0x31B7568B7808C583, 0x8B7A0E4D4F4C1B03, 0x6A43BBC5F0E9664D, 0x36820F7FFC04F405,
     0x15574D186236765C, 0x8AA6C372465CF87E, 0x5AF53355E3D26FCD, 0x06B52380233CA1BA,
     0xDC91CFF6918A8EA2, 0x2521E8B4BE0A4BDC, 0x0628ABB64BFF4EC2, 0x0E829D94EAA1527C,
     0x0000000000000001, 0x0000000000000000, 0x0000000000000000, 0x0000000000000000,
     0x8000000000000000, 0x0000000000000000, 0x0000000000000000, 0x0000000000000000,
     0x0000000000000000, 0x0000000000000000, 0x0000000000000000, 0x0000000000000000,
     0x0000000000000000]
   = [0x8FB38C0441FB5E62, 0xD6D3EB177C17C4E8, 0x1B11149E2CB014BB, 0x03FBB026901F4862,
     0xAD79BC577CC63D4E, 0xBDC438B95A1CCC74, 0xB8390910EDF3490F, 0x6DD2F979D7ABF0C0,
     0x10FEA4065E6BB94F, 0x3A868BECFF048F51, 0xF4E5FC41AE9D2DDD, 0x8DCEDC309979578F,
     0x42EC50AF6423E029, 0x32F1747768A1140D, 0xFDFE2CD8D686F4B6, 0x52E5C558A1EC93D0,
     0x9D25193BFA7F6F75, 0xE0DB83A4F0C8B725, 0x7E4CF3F18A757100, 0xF302E841848D24B7,
     0x5197F728C3230086, 0xC29B2CBE60683C22, 0xF9AAF7C15FDEA609, 0xCA3909B321E93A64,
     0x5B4D83EC539C76E8]"
proof -
  have split: "round_constants =
     [0x0000000000000001, 0x0000000000008082, 0x800000000000808A, 0x8000000080008000,
     0x000000000000808B, 0x0000000080000001]
     @ [0x8000000080008081, 0x8000000000008009, 0x000000000000008A, 0x0000000000000088,
     0x0000000080008009, 0x000000008000000A]
     @ [0x000000008000808B, 0x800000000000008B, 0x8000000000008089, 0x8000000000008003,
     0x8000000000008002, 0x8000000000000080]
     @ [0x000000000000800A, 0x800000008000000A, 0x8000000080008081, 0x8000000000008080,
     0x0000000080000001, 0x8000000080008008]"
    by (simp add: round_constants_def)
  show ?thesis
    by (simp only: keccak_f_def split foldl_append digest_rounds_1 digest_rounds_2
        digest_rounds_3 digest_rounds_4)
qed

lemma digest_value: "Keccak256 (test_seed @ test_cmix) = spec_digest"
  unfolding Keccak256_def keccak_def digest_absorb digest_permutation
  by (simp add: PutUint64_def upt_0_8 spec_digest_def)

subsection \<open>The digests differ\<close>

lemma take_32_test_hash: "take 32 test_hash = test_hash"
  by (simp add: test_hash_def)

lemma frankomoto_test_hash: "frankomoto test_hash 0 = (drop 32 test_seed, Keccak256 test_seed)"
proof -
  have "32 \<le> length test_hash"
    by (simp add: test_hash_def)
  then have "frankomoto test_hash 0 =
     (drop 32 (Keccak512 (take 32 test_hash @ PutUint64 0)),
      Keccak256 (Keccak512 (take 32 test_hash @ PutUint64 0)))"
    by (rule frankomoto_unfold)
  then show ?thesis
    by (simp only: take_32_test_hash seed_value)
qed

text \<open>
  The algorithm test compares the digest of this call with all 64 bytes of the seed; the
  function returns the upper 32 of them.
\<close>

lemma frankomoto_test_digest:
  "fst (frankomoto test_hash 0) = drop 32 test_seed \<and> fst (frankomoto test_hash 0) \<noteq> test_seed"
  by (simp add: frankomoto_test_hash) (simp add: test_seed_def)

lemma spec_mix_test_hash:
  "spec_mix 8 index_rows test_hash 0 = (spec_digest, Keccak256 test_seed)"
  by (simp only: spec_mix_def spec_seed_def Let_def take_32_test_hash seed_value mix_value
      compress_value digest_value)

text \<open>
  C1, amended: for a 32-byte header hash, the hashing function hashes the header hash
  followed by the little-endian nonce to the 64-byte seed and returns the upper 32 bytes of
  the seed as digest and the 32-byte hash of the seed as result, the result the algorithm
  of the spec has too, whatever the lookup; mix buffer, lookup and FNV rounds take no part.
\<close>

theorem frankomoto_simplified:
  assumes "length headerHash = 32"
  shows "frankomoto headerHash nonce =
           (drop 32 (spec_seed headerHash nonce), Keccak256 (spec_seed headerHash nonce))
       \<and> spec_seed headerHash nonce = Keccak512 (headerHash @ PutUint64 nonce)
       \<and> length (spec_seed headerHash nonce) = 64
       \<and> (\<forall>rows lookup.
             snd (frankomoto headerHash nonce) = snd (spec_mix rows lookup headerHash nonce))"
proof -
  have "frankomoto headerHash nonce =
     (drop 32 (Keccak512 (take 32 headerHash @ PutUint64 nonce)),
      Keccak256 (Keccak512 (take 32 headerHash @ PutUint64 nonce)))"
    using assms by (intro frankomoto_unfold) simp
  then show ?thesis
    using assms by (simp add: spec_seed_def spec_mix_def Let_def length_Keccak512)
qed

theorem frankomoto_simplified_witness:
  "length test_hash = 32
   \<and> frankomoto test_hash 0 = (drop 32 (spec_seed test_hash 0), Keccak256 (spec_seed test_hash 0))
   \<and> snd (frankomoto test_hash 0) = snd (spec_mix 8 index_rows test_hash 0)"
proof -
  have l: "length test_hash = 32"
    by (simp add: test_hash_def)
  show ?thesis
    using frankomoto_simplified [OF l, of 0] l by blast
qed

text \<open>
  C1 as stated fails: on the header hash of the algorithm test with nonce 0, the digest of
  the hashing function is the upper half of the seed, while the algorithm of the spec, run
  over a lookup structure of 8 rows, arrives at another digest.
\<close>

theorem frankomoto_mix_counterexample:
  "length test_hash = 32
   \<and> fst (frankomoto test_hash 0) = drop 32 test_seed
   \<and> fst (spec_mix 8 index_rows test_hash 0) = spec_digest
   \<and> fst (frankomoto test_hash 0) \<noteq> fst (spec_mix 8 index_rows test_hash 0)"
proof -
  have "drop 32 test_seed \<noteq> spec_digest"
    by (simp add: test_seed_def spec_digest_def)
  then show ?thesis
    by (simp add: frankomoto_test_hash spec_mix_test_hash) (simp add: test_hash_def)
qed

end
